theory Spec2Isabelle
  imports Main "HOL-Library.Word"
begin


section \<open>Data model of the converter\<close>

text \<open>
  The Kubernetes and hcsshim types the converter reads and writes. Pointers that the code
  tests against \<open>nil\<close> are options. \<open>corev1.Protocol\<close> is a Go string type, with the
  constants \<open>"TCP"\<close>, \<open>"UDP"\<close> and \<open>"SCTP"\<close>; \<open>intstr.Type\<close> is an \<open>int64\<close> with
  \<open>Int = 0\<close> and \<open>String = 1\<close>; \<open>IntVal\<close> is an \<open>int32\<close>. Fields the converter never
  reads (selectors, \<open>Except\<close>, labels) are left out, apart from the selectors of a peer,
  which are kept as flags.
\<close>

type_synonym Protocol = string

definition ProtocolTCP :: Protocol where "ProtocolTCP = ''TCP''"
definition ProtocolUDP :: Protocol where "ProtocolUDP = ''UDP''"
definition ProtocolSCTP :: Protocol where "ProtocolSCTP = ''SCTP''"

definition intstr_Int :: "64 word" where "intstr_Int = 0"
definition intstr_String :: "64 word" where "intstr_String = 1"

record IntOrString =
  Type :: "64 word"
  IntVal :: "32 word"
  StrVal :: string

record NetworkPolicyPort =
  port_Protocol :: "Protocol option"
  port_Port :: "IntOrString option"

record IPBlock =
  CIDR :: string

record NetworkPolicyPeer =
  peer_IPBlock :: "IPBlock option"
  peer_PodSelector :: bool
  peer_NamespaceSelector :: bool

record NetworkPolicyIngressRule =
  ingress_Ports :: "NetworkPolicyPort list"
  From :: "NetworkPolicyPeer list"

record NetworkPolicyEgressRule =
  egress_Ports :: "NetworkPolicyPort list"
  To :: "NetworkPolicyPeer list"

record NetworkPolicy =
  Namespace :: string
  np_Name :: string
  Ingress :: "NetworkPolicyIngressRule list"
  Egress :: "NetworkPolicyEgressRule list"

datatype ActionType = ActionTypeAllow | ActionTypeBlock

datatype DirectionType = DirectionTypeIn | DirectionTypeOut

text \<open>\<open>ACLRule\<close>: the converter's output and the manager's input. \<open>Priority\<close> is a \<open>uint16\<close>.\<close>

record ACLRule =
  Name :: string
  Action :: ActionType
  Direction :: DirectionType
  Protocol :: string
  LocalPorts :: string
  RemotePorts :: string
  RemoteAddresses :: string
  Priority :: "16 word"

section \<open>The resolver functions\<close>

text \<open>\<open>fmt.Sprintf("%d", v)\<close>: the decimal digits of an integer, with a minus sign when negative.\<close>

definition digit_char :: "nat \<Rightarrow> char" where
  "digit_char d = char_of (48 + d)"

fun nat_decimal :: "nat \<Rightarrow> string" where
  "nat_decimal n = (if n < 10 then [digit_char n] else nat_decimal (n div 10) @ [digit_char (n mod 10)])"

declare nat_decimal.simps [simp del]

definition Sprintf_d :: "int \<Rightarrow> string" where
  "Sprintf_d i = (if i < 0 then CHR ''-'' # nat_decimal (nat (- i)) else nat_decimal (nat i))"

definition getPeerAddress :: "NetworkPolicyPeer \<Rightarrow> string" where
  "getPeerAddress peer =
     (case peer_IPBlock peer of
        Some b \<Rightarrow> CIDR b
      | None \<Rightarrow> [])"

definition protocolToNumber :: "Protocol option \<Rightarrow> string" where
  "protocolToNumber proto =
     (case proto of
        None \<Rightarrow> ''6''
      | Some p \<Rightarrow>
          if p = ProtocolTCP then ''6''
          else if p = ProtocolUDP then ''17''
          else if p = ProtocolSCTP then ''132''
          else ''6'')"

definition portToString :: "IntOrString option \<Rightarrow> string" where
  "portToString port =
     (case port of
        None \<Rightarrow> []
      | Some p \<Rightarrow>
          if Type p = intstr_Int then Sprintf_d (sint (IntVal p))
          else if Type p = intstr_String then []
          else [])"

section \<open>The converter\<close>

text \<open>
  The priority counter is the \<open>*uint16\<close> that \<open>NetworkPolicyToACLRules\<close> hands to each
  call: every function takes its value and returns the new one together with the rules.
  \<open>*priority++\<close> is \<open>+ 1\<close> on \<open>16 word\<close>, which wraps as the Go increment does.
\<close>

definition ingressName :: "NetworkPolicy \<Rightarrow> string" where
  "ingressName np = Namespace np @ ''/'' @ np_Name np @ ''-ingress''"

definition egressName :: "NetworkPolicy \<Rightarrow> string" where
  "egressName np = Namespace np @ ''/'' @ np_Name np @ ''-egress''"

text \<open>
  The loop over \<open>ingressRule.From\<close>. The source has it twice, once with \<open>Protocol\<close> and
  \<open>LocalPorts\<close> empty (no ports) and once with those of the current port: \<open>proto\<close> and
  \<open>ports\<close> are these two strings. Fields a struct literal does not set are empty.
\<close>

fun ingressFromLoop ::
  "NetworkPolicy \<Rightarrow> string \<Rightarrow> string \<Rightarrow> NetworkPolicyPeer list \<Rightarrow> ACLRule list \<Rightarrow> 16 word
     \<Rightarrow> ACLRule list \<times> 16 word" where
  "ingressFromLoop np proto ports [] rules priority = (rules, priority)"
| "ingressFromLoop np proto ports (from # rest) rules priority =
     (let remoteAddr = getPeerAddress from in
      if remoteAddr = [] then ingressFromLoop np proto ports rest rules priority
      else
        ingressFromLoop np proto ports rest
          (rules @ [\<lparr>Name = ingressName np, Action = ActionTypeAllow, Direction = DirectionTypeIn,
                     Protocol = proto, LocalPorts = ports, RemotePorts = [],
                     RemoteAddresses = remoteAddr, Priority = priority\<rparr>])
          (priority + 1))"

fun ingressPortsLoop ::
  "NetworkPolicy \<Rightarrow> NetworkPolicyPeer list \<Rightarrow> NetworkPolicyPort list \<Rightarrow> ACLRule list \<Rightarrow> 16 word
     \<Rightarrow> ACLRule list \<times> 16 word" where
  "ingressPortsLoop np froms [] rules priority = (rules, priority)"
| "ingressPortsLoop np froms (port # rest) rules priority =
     (if length froms = 0 then
        ingressPortsLoop np froms rest
          (rules @ [\<lparr>Name = ingressName np, Action = ActionTypeAllow, Direction = DirectionTypeIn,
                     Protocol = protocolToNumber (port_Protocol port),
                     LocalPorts = portToString (port_Port port), RemotePorts = [],
                     RemoteAddresses = ''0.0.0.0/0'', Priority = priority\<rparr>])
          (priority + 1)
      else
        (case ingressFromLoop np (protocolToNumber (port_Protocol port))
                (portToString (port_Port port)) froms rules priority of
           (rules', priority') \<Rightarrow> ingressPortsLoop np froms rest rules' priority'))"

definition convertIngressRule ::
  "NetworkPolicy \<Rightarrow> NetworkPolicyIngressRule \<Rightarrow> 16 word \<Rightarrow> ACLRule list \<times> 16 word" where
  "convertIngressRule np ingressRule priority =
     (if length (ingress_Ports ingressRule) = 0 then
        (if length (From ingressRule) = 0 then
           ([\<lparr>Name = ingressName np, Action = ActionTypeAllow, Direction = DirectionTypeIn,
              Protocol = [], LocalPorts = [], RemotePorts = [],
              RemoteAddresses = ''0.0.0.0/0'', Priority = priority\<rparr>],
            priority + 1)
         else ingressFromLoop np [] [] (From ingressRule) [] priority)
      else ingressPortsLoop np (From ingressRule) (ingress_Ports ingressRule) [] priority)"

fun egressToLoop ::
  "NetworkPolicy \<Rightarrow> string \<Rightarrow> string \<Rightarrow> NetworkPolicyPeer list \<Rightarrow> ACLRule list \<Rightarrow> 16 word
     \<Rightarrow> ACLRule list \<times> 16 word" where
  "egressToLoop np proto ports [] rules priority = (rules, priority)"
| "egressToLoop np proto ports (to # rest) rules priority =
     (let remoteAddr = getPeerAddress to in
      if remoteAddr = [] then egressToLoop np proto ports rest rules priority
      else
        egressToLoop np proto ports rest
          (rules @ [\<lparr>Name = egressName np, Action = ActionTypeAllow, Direction = DirectionTypeOut,
                     Protocol = proto, LocalPorts = [], RemotePorts = ports,
                     RemoteAddresses = remoteAddr, Priority = priority\<rparr>])
          (priority + 1))"

fun egressPortsLoop ::
  "NetworkPolicy \<Rightarrow> NetworkPolicyPeer list \<Rightarrow> NetworkPolicyPort list \<Rightarrow> ACLRule list \<Rightarrow> 16 word
     \<Rightarrow> ACLRule list \<times> 16 word" where
  "egressPortsLoop np tos [] rules priority = (rules, priority)"
| "egressPortsLoop np tos (port # rest) rules priority =
     (if length tos = 0 then
        egressPortsLoop np tos rest
          (rules @ [\<lparr>Name = egressName np, Action = ActionTypeAllow, Direction = DirectionTypeOut,
                     Protocol = protocolToNumber (port_Protocol port),
                     LocalPorts = [], RemotePorts = portToString (port_Port port),
                     RemoteAddresses = ''0.0.0.0/0'', Priority = priority\<rparr>])
          (priority + 1)
      else
        (case egressToLoop np (protocolToNumber (port_Protocol port))
                (portToString (port_Port port)) tos rules priority of
           (rules', priority') \<Rightarrow> egressPortsLoop np tos rest rules' priority'))"

definition convertEgressRule ::
  "NetworkPolicy \<Rightarrow> NetworkPolicyEgressRule \<Rightarrow> 16 word \<Rightarrow> ACLRule list \<times> 16 word" where
  "convertEgressRule np egressRule priority =
     (if length (egress_Ports egressRule) = 0 then
        (if length (To egressRule) = 0 then
           ([\<lparr>Name = egressName np, Action = ActionTypeAllow, Direction = DirectionTypeOut,
              Protocol = [], LocalPorts = [], RemotePorts = [],
              RemoteAddresses = ''0.0.0.0/0'', Priority = priority\<rparr>],
            priority + 1)
         else egressToLoop np [] [] (To egressRule) [] priority)
      else egressPortsLoop np (To egressRule) (egress_Ports egressRule) [] priority)"

text \<open>The two loops of \<open>NetworkPolicyToACLRules\<close>, each appending what one rule converts to.\<close>

fun ingressLoop ::
  "NetworkPolicy \<Rightarrow> NetworkPolicyIngressRule list \<Rightarrow> ACLRule list \<Rightarrow> 16 word
     \<Rightarrow> ACLRule list \<times> 16 word" where
  "ingressLoop np [] rules priority = (rules, priority)"
| "ingressLoop np (ingressRule # rest) rules priority =
     (case convertIngressRule np ingressRule priority of
        (ingressRules, priority') \<Rightarrow> ingressLoop np rest (rules @ ingressRules) priority')"

fun egressLoop ::
  "NetworkPolicy \<Rightarrow> NetworkPolicyEgressRule list \<Rightarrow> ACLRule list \<Rightarrow> 16 word
     \<Rightarrow> ACLRule list \<times> 16 word" where
  "egressLoop np [] rules priority = (rules, priority)"
| "egressLoop np (egressRule # rest) rules priority =
     (case convertEgressRule np egressRule priority of
        (egressRules, priority') \<Rightarrow> egressLoop np rest (rules @ egressRules) priority')"

definition NetworkPolicyToACLRules :: "NetworkPolicy \<Rightarrow> ACLRule list" where
  "NetworkPolicyToACLRules np =
     (case ingressLoop np (Ingress np) [] 100 of
        (rules, priority) \<Rightarrow> fst (egressLoop np (Egress np) rules priority))"

section \<open>The expansion as the specification words it\<close>

definition resolvable :: "NetworkPolicyPeer list \<Rightarrow> string list" where
  "resolvable peers = filter (\<lambda>a. a \<noteq> []) (map getPeerAddress peers)"

definition ingressRuleFor :: "NetworkPolicy \<Rightarrow> string \<Rightarrow> string \<Rightarrow> string \<Rightarrow> ACLRule" where
  "ingressRuleFor np proto ports addr =
     \<lparr>Name = ingressName np, Action = ActionTypeAllow, Direction = DirectionTypeIn,
      Protocol = proto, LocalPorts = ports, RemotePorts = [],
      RemoteAddresses = addr, Priority = 0\<rparr>"

definition egressRuleFor :: "NetworkPolicy \<Rightarrow> string \<Rightarrow> string \<Rightarrow> string \<Rightarrow> ACLRule" where
  "egressRuleFor np proto ports addr =
     \<lparr>Name = egressName np, Action = ActionTypeAllow, Direction = DirectionTypeOut,
      Protocol = proto, LocalPorts = [], RemotePorts = ports,
      RemoteAddresses = addr, Priority = 0\<rparr>"

definition spec_expand ::
  "(string \<Rightarrow> string \<Rightarrow> string \<Rightarrow> ACLRule) \<Rightarrow> NetworkPolicyPort list \<Rightarrow> NetworkPolicyPeer list \<Rightarrow> ACLRule list" where
  "spec_expand mk ports peers =
     (if ports = [] then
        (if peers = [] then [mk [] [] ''0.0.0.0/0'']
         else map (mk [] []) (resolvable peers))
      else
        concat (map (\<lambda>port.
          if peers = [] then
            [mk (protocolToNumber (port_Protocol port)) (portToString (port_Port port)) ''0.0.0.0/0'']
          else
            map (mk (protocolToNumber (port_Protocol port)) (portToString (port_Port port)))
              (resolvable peers)) ports))"

definition spec_count :: "NetworkPolicyPort list \<Rightarrow> NetworkPolicyPeer list \<Rightarrow> nat" where
  "spec_count ports peers =
     (if ports = [] then (if peers = [] then 1 else length (resolvable peers))
      else (if peers = [] then length ports else length ports * length (resolvable peers)))"

fun assign_priorities :: "16 word \<Rightarrow> ACLRule list \<Rightarrow> ACLRule list" where
  "assign_priorities p [] = []"
| "assign_priorities p (r # rs) = r\<lparr>Priority := p\<rparr> # assign_priorities (p + 1) rs"

definition port_block ::
  "(string \<Rightarrow> string \<Rightarrow> string \<Rightarrow> ACLRule) \<Rightarrow> NetworkPolicyPeer list \<Rightarrow> NetworkPolicyPort \<Rightarrow> ACLRule list" where
  "port_block mk peers =
     (\<lambda>port.
        if peers = [] then
          [mk (protocolToNumber (port_Protocol port)) (portToString (port_Port port)) ''0.0.0.0/0'']
        else
          map (mk (protocolToNumber (port_Protocol port)) (portToString (port_Port port)))
            (resolvable peers))"

definition spec_ingress :: "NetworkPolicy \<Rightarrow> NetworkPolicyIngressRule \<Rightarrow> ACLRule list" where
  "spec_ingress np r = spec_expand (ingressRuleFor np) (ingress_Ports r) (From r)"

definition spec_egress :: "NetworkPolicy \<Rightarrow> NetworkPolicyEgressRule \<Rightarrow> ACLRule list" where
  "spec_egress np r = spec_expand (egressRuleFor np) (egress_Ports r) (To r)"

definition spec_rules :: "NetworkPolicy \<Rightarrow> ACLRule list" where
  "spec_rules np =
     concat (map (spec_ingress np) (Ingress np)) @ concat (map (spec_egress np) (Egress np))"

section \<open>Concrete policies\<close>

text \<open>
  A small policy: one ingress rule with two ports and two peers, of which only the first is
  an address block, and one egress rule with neither ports nor peers.
\<close>

definition example_ingress :: NetworkPolicyIngressRule where
  "example_ingress =
     \<lparr>ingress_Ports =
        [\<lparr>port_Protocol = Some ProtocolTCP,
          port_Port = Some \<lparr>Type = intstr_Int, IntVal = 80, StrVal = []\<rparr>\<rparr>,
         \<lparr>port_Protocol = Some ProtocolUDP,
          port_Port = Some \<lparr>Type = intstr_String, IntVal = 0, StrVal = ''dns''\<rparr>\<rparr>],
      From =
        [\<lparr>peer_IPBlock = Some \<lparr>CIDR = ''10.0.0.0/8''\<rparr>,
          peer_PodSelector = False, peer_NamespaceSelector = False\<rparr>,
         \<lparr>peer_IPBlock = None, peer_PodSelector = True, peer_NamespaceSelector = False\<rparr>]\<rparr>"

definition example_egress :: NetworkPolicyEgressRule where
  "example_egress = \<lparr>egress_Ports = [], To = []\<rparr>"

definition example_policy :: NetworkPolicy where
  "example_policy =
     \<lparr>Namespace = ''default'', np_Name = ''web'',
      Ingress = [example_ingress], Egress = [example_egress]\<rparr>"

text \<open>A policy of 65437 ingress rules, each with neither ports nor peers.\<close>

definition open_ingress :: NetworkPolicyIngressRule where
  "open_ingress = \<lparr>ingress_Ports = [], From = []\<rparr>"

definition wrap_policy :: NetworkPolicy where
  "wrap_policy =
     \<lparr>Namespace = ''default'', np_Name = ''wide'',
      Ingress = replicate 65437 open_ingress, Egress = []\<rparr>"

text \<open>A policy whose only peers are label selectors, in an ingress rule with a port and in an egress rule without.\<close>

definition selector_peer :: NetworkPolicyPeer where
  "selector_peer = \<lparr>peer_IPBlock = None, peer_PodSelector = True, peer_NamespaceSelector = False\<rparr>"

definition selector_ingress :: NetworkPolicyIngressRule where
  "selector_ingress =
     \<lparr>ingress_Ports = [\<lparr>port_Protocol = Some ProtocolTCP,
                        port_Port = Some \<lparr>Type = intstr_Int, IntVal = 80, StrVal = []\<rparr>\<rparr>],
      From = [selector_peer]\<rparr>"

definition selector_egress :: NetworkPolicyEgressRule where
  "selector_egress = \<lparr>egress_Ports = [], To = [selector_peer]\<rparr>"

definition selector_policy :: NetworkPolicy where
  "selector_policy =
     \<lparr>Namespace = ''default'', np_Name = ''db'',
      Ingress = [selector_ingress], Egress = [selector_egress]\<rparr>"

text \<open>An integral port, a named port, and an egress rule with one port and no peers.\<close>

definition https_port :: IntOrString where
  "https_port = \<lparr>Type = intstr_Int, IntVal = 443, StrVal = []\<rparr>"

definition named_port :: IntOrString where
  "named_port = \<lparr>Type = intstr_String, IntVal = 0, StrVal = ''http''\<rparr>"

definition dns_egress :: NetworkPolicyEgressRule where
  "dns_egress =
     \<lparr>egress_Ports = [\<lparr>port_Protocol = Some ProtocolUDP,
                       port_Port = Some \<lparr>Type = intstr_Int, IntVal = 53, StrVal = []\<rparr>\<rparr>],
      To = []\<rparr>"

section \<open>Reading a decimal string\<close>

text \<open>
  The number a string of decimal digits denotes, to state what \<open>Sprintf_d\<close> returns
  independently of how it computes it.
\<close>

definition digit_value :: "char \<Rightarrow> nat" where
  "digit_value c = of_char c - 48"

definition decimal_value :: "string \<Rightarrow> nat" where
  "decimal_value s = foldl (\<lambda>a c. 10 * a + digit_value c) 0 s"

section \<open>Data model of the endpoint policy manager\<close>

text \<open>
  Of \<open>hcn.HostComputeEndpoint\<close> the manager reads \<open>Id\<close> and \<open>Name\<close>.
  \<open>hcn.EndpointPolicy\<close> is a policy type (the string \<open>"ACL"\<close> here) and the JSON bytes of
  its settings. \<open>hcn.AclPolicySetting\<close> has the fields \<open>buildPolicies\<close> sets.
\<close>

record HostComputeEndpoint =
  endpoint_Id :: string
  endpoint_Name :: string

definition ACL :: string where "ACL = ''ACL''"

record EndpointPolicy =
  policy_Type :: string
  Settings :: string

record AclPolicySetting =
  acl_Protocols :: string
  acl_Action :: ActionType
  acl_Direction :: DirectionType
  acl_LocalAddresses :: string
  acl_RemoteAddresses :: string
  acl_LocalPorts :: string
  acl_RemotePorts :: string
  acl_Priority :: "16 word"

record PolicyEndpointRequest =
  request_Policies :: "EndpointPolicy list"

datatype RequestType = RequestTypeAdd | RequestTypeUpdate | RequestTypeRemove | RequestTypeRefresh

record RuleSet =
  EndpointID :: string
  Policies :: "EndpointPolicy list"

text \<open>
  Errors are values. \<open>HostError\<close> is an error that comes from outside the manager (the HCN
  client or \<open>json.Marshal\<close>); the others are the errors the manager builds with
  \<open>fmt.Errorf\<close>, one constructor for each format string, holding what the format prints.
\<close>

datatype error =
    HostError string
  | ListEndpointsFailed error
  | BuildPoliciesFailed error
  | MarshalFailed nat error
  | EndpointFailed string error
  | GetEndpointFailed string error
  | ApplyAggregate nat nat "error list"
  | RemoveAggregate nat nat "error list"

text \<open>
  The \<open>HCNClient\<close> interface. The host behind it is a state \<open>'h\<close> that every call may read
  and change; a call returns its result and the new state. A Go \<open>error\<close> result is an
  option, \<open>None\<close> for \<open>nil\<close>; a result with a value is a sum, \<open>Inl\<close> the error.
\<close>

record 'h HCNClient =
  ListEndpoints :: "'h \<Rightarrow> (error + HostComputeEndpoint list) \<times> 'h"
  GetEndpointByID :: "string \<Rightarrow> 'h \<Rightarrow> (error + HostComputeEndpoint) \<times> 'h"
  ApplyEndpointPolicy ::
    "HostComputeEndpoint \<Rightarrow> RequestType \<Rightarrow> PolicyEndpointRequest \<Rightarrow> 'h \<Rightarrow> error option \<times> 'h"
  RemoveEndpointPolicy ::
    "HostComputeEndpoint \<Rightarrow> RequestType \<Rightarrow> PolicyEndpointRequest \<Rightarrow> 'h \<Rightarrow> error option \<times> 'h"

text \<open>
  The manager: its client and the tracking map. The logger has no effect on results and is
  left out; so is the mutex, the model being of one call at a time.
\<close>

record 'h Manager =
  client :: "'h HCNClient"
  appliedPolicies :: "string \<rightharpoonup> RuleSet list"

definition NewManager :: "'h HCNClient \<Rightarrow> 'h Manager" where
  "NewManager c = \<lparr>client = c, appliedPolicies = Map.empty\<rparr>"

section \<open>The endpoint policy manager\<close>

text \<open>
  \<open>buildPolicies\<close>. \<open>json.Marshal\<close> is a library function: it is the parameter \<open>marshal\<close>.
\<close>

fun buildPoliciesLoop ::
  "(AclPolicySetting \<Rightarrow> error + string) \<Rightarrow> nat \<Rightarrow> ACLRule list \<Rightarrow> EndpointPolicy list
     \<Rightarrow> error + EndpointPolicy list" where
  "buildPoliciesLoop marshal i [] policies = Inr policies"
| "buildPoliciesLoop marshal i (rule # rest) policies =
     (let aclSetting =
        \<lparr>acl_Protocols = Protocol rule, acl_Action = Action rule, acl_Direction = Direction rule,
         acl_LocalAddresses = [], acl_RemoteAddresses = RemoteAddresses rule,
         acl_LocalPorts = LocalPorts rule, acl_RemotePorts = RemotePorts rule,
         acl_Priority = Priority rule\<rparr>
      in case marshal aclSetting of
           Inl err \<Rightarrow> Inl (MarshalFailed i err)
         | Inr settingsJSON \<Rightarrow>
             buildPoliciesLoop marshal (i + 1) rest
               (policies @ [\<lparr>policy_Type = ACL, Settings = settingsJSON\<rparr>]))"

definition buildPolicies ::
  "(AclPolicySetting \<Rightarrow> error + string) \<Rightarrow> ACLRule list \<Rightarrow> error + EndpointPolicy list" where
  "buildPolicies marshal rules = buildPoliciesLoop marshal 0 rules []"

text \<open>The loop of \<open>ApplyACLRules\<close> over the endpoints, with its two accumulators.\<close>

fun applyLoop ::
  "'h HCNClient \<Rightarrow> EndpointPolicy list \<Rightarrow> HostComputeEndpoint list \<Rightarrow> RuleSet list \<Rightarrow> error list
     \<Rightarrow> 'h \<Rightarrow> RuleSet list \<times> error list \<times> 'h" where
  "applyLoop c policies [] ruleSets applyErrors h = (ruleSets, applyErrors, h)"
| "applyLoop c policies (endpoint # rest) ruleSets applyErrors h =
     (case ApplyEndpointPolicy c endpoint RequestTypeAdd \<lparr>request_Policies = policies\<rparr> h of
        (Some err, h') \<Rightarrow>
          applyLoop c policies rest ruleSets
            (applyErrors @ [EndpointFailed (endpoint_Id endpoint) err]) h'
      | (None, h') \<Rightarrow>
          applyLoop c policies rest
            (ruleSets @ [\<lparr>EndpointID = endpoint_Id endpoint, Policies = policies\<rparr>]) applyErrors h')"

definition ApplyACLRules ::
  "'h Manager \<Rightarrow> (AclPolicySetting \<Rightarrow> error + string) \<Rightarrow> string \<Rightarrow> ACLRule list \<Rightarrow> 'h
     \<Rightarrow> error option \<times> 'h Manager \<times> 'h" where
  "ApplyACLRules m marshal policyKey rules h =
     (case ListEndpoints (client m) h of
        (Inl err, h1) \<Rightarrow> (Some (ListEndpointsFailed err), m, h1)
      | (Inr endpoints, h1) \<Rightarrow>
          if length endpoints = 0 then (None, m, h1)
          else
            (case buildPolicies marshal rules of
               Inl err \<Rightarrow> (Some (BuildPoliciesFailed err), m, h1)
             | Inr policies \<Rightarrow>
                 (case applyLoop (client m) policies endpoints [] [] h1 of
                    (ruleSets, applyErrors, h2) \<Rightarrow>
                      let m' = m\<lparr>appliedPolicies := (appliedPolicies m)(policyKey \<mapsto> ruleSets)\<rparr>
                      in if length applyErrors > 0 then
                           (Some (ApplyAggregate (length applyErrors) (length endpoints) applyErrors),
                            m', h2)
                         else (None, m', h2))))"

text \<open>The loop of \<open>RemoveACLRules\<close> over the rule sets it took out of the map.\<close>

fun removeLoop ::
  "'h HCNClient \<Rightarrow> RuleSet list \<Rightarrow> error list \<Rightarrow> 'h \<Rightarrow> error list \<times> 'h" where
  "removeLoop c [] removeErrors h = (removeErrors, h)"
| "removeLoop c (ruleSet # rest) removeErrors h =
     (case GetEndpointByID c (EndpointID ruleSet) h of
        (Inl err, h1) \<Rightarrow>
          removeLoop c rest (removeErrors @ [GetEndpointFailed (EndpointID ruleSet) err]) h1
      | (Inr endpoint, h1) \<Rightarrow>
          (case RemoveEndpointPolicy c endpoint RequestTypeRemove
                  \<lparr>request_Policies = Policies ruleSet\<rparr> h1 of
             (Some err, h2) \<Rightarrow>
               removeLoop c rest (removeErrors @ [EndpointFailed (EndpointID ruleSet) err]) h2
           | (None, h2) \<Rightarrow> removeLoop c rest removeErrors h2))"

definition RemoveACLRules ::
  "'h Manager \<Rightarrow> string \<Rightarrow> 'h \<Rightarrow> error option \<times> 'h Manager \<times> 'h" where
  "RemoveACLRules m policyKey h =
     (case appliedPolicies m policyKey of
        None \<Rightarrow> (None, m, h)
      | Some ruleSets \<Rightarrow>
          let m' = m\<lparr>appliedPolicies := (appliedPolicies m)(policyKey := None)\<rparr>
          in (case removeLoop (client m) ruleSets [] h of
                (removeErrors, h') \<Rightarrow>
                  if length removeErrors > 0 then
                    (Some (RemoveAggregate (length removeErrors) (length ruleSets) removeErrors),
                     m', h')
                  else (None, m', h')))"

text \<open>
  The accessors. A \<open>nil\<close> slice and an empty one are both the empty list. The keys
  \<open>ListTrackedPolicies\<close> returns come in the order of a Go map iteration, which is not
  specified: the model returns them as a set.
\<close>

definition GetAppliedPolicies :: "'h Manager \<Rightarrow> string \<Rightarrow> RuleSet list \<times> bool" where
  "GetAppliedPolicies m policyKey =
     (case appliedPolicies m policyKey of
        Some ruleSets \<Rightarrow> (ruleSets, True)
      | None \<Rightarrow> ([], False))"

definition ListTrackedPolicies :: "'h Manager \<Rightarrow> string set" where
  "ListTrackedPolicies m = dom (appliedPolicies m)"

section \<open>What the host answered\<close>

text \<open>
  The answers of the host to one install request for each endpoint, in order, each call
  made in the state the previous one left: the endpoint with \<open>None\<close> when the install
  succeeded and with the error when it failed.
\<close>

fun applyTrace ::
  "'h HCNClient \<Rightarrow> EndpointPolicy list \<Rightarrow> HostComputeEndpoint list \<Rightarrow> 'h
     \<Rightarrow> (HostComputeEndpoint \<times> error option) list \<times> 'h" where
  "applyTrace c policies [] h = ([], h)"
| "applyTrace c policies (endpoint # rest) h =
     (case ApplyEndpointPolicy c endpoint RequestTypeAdd \<lparr>request_Policies = policies\<rparr> h of
        (r, h') \<Rightarrow>
          ((endpoint, r) # fst (applyTrace c policies rest h'), snd (applyTrace c policies rest h')))"

definition succeeded :: "(HostComputeEndpoint \<times> error option) list \<Rightarrow> HostComputeEndpoint list" where
  "succeeded outcomes = map fst (filter (\<lambda>(e, r). r = None) outcomes)"

definition failures :: "(HostComputeEndpoint \<times> error option) list \<Rightarrow> error list" where
  "failures outcomes =
     concat (map (\<lambda>(e, r). case r of None \<Rightarrow> [] | Some err \<Rightarrow> [EndpointFailed (endpoint_Id e) err])
       outcomes)"

text \<open>
  The same for a removal: for each rule set, the error of the lookup of its endpoint, or
  else of the removal request, or \<open>None\<close> when both succeeded.
\<close>

definition removeOne :: "'h HCNClient \<Rightarrow> RuleSet \<Rightarrow> 'h \<Rightarrow> error option \<times> 'h" where
  "removeOne c ruleSet h =
     (case GetEndpointByID c (EndpointID ruleSet) h of
        (Inl err, h1) \<Rightarrow> (Some (GetEndpointFailed (EndpointID ruleSet) err), h1)
      | (Inr endpoint, h1) \<Rightarrow>
          (case RemoveEndpointPolicy c endpoint RequestTypeRemove
                  \<lparr>request_Policies = Policies ruleSet\<rparr> h1 of
             (Some err, h2) \<Rightarrow> (Some (EndpointFailed (EndpointID ruleSet) err), h2)
           | (None, h2) \<Rightarrow> (None, h2)))"

fun removeTrace ::
  "'h HCNClient \<Rightarrow> RuleSet list \<Rightarrow> 'h \<Rightarrow> (RuleSet \<times> error option) list \<times> 'h" where
  "removeTrace c [] h = ([], h)"
| "removeTrace c (ruleSet # rest) h =
     (case removeOne c ruleSet h of
        (r, h') \<Rightarrow> ((ruleSet, r) # fst (removeTrace c rest h'), snd (removeTrace c rest h')))"

definition removeFailures :: "(RuleSet \<times> error option) list \<Rightarrow> error list" where
  "removeFailures outcomes = concat (map (\<lambda>(s, r). case r of None \<Rightarrow> [] | Some err \<Rightarrow> [err]) outcomes)"

text \<open>The setting \<open>buildPolicies\<close> builds for a rule.\<close>

definition aclSettingOf :: "ACLRule \<Rightarrow> AclPolicySetting" where
  "aclSettingOf rule =
     \<lparr>acl_Protocols = Protocol rule, acl_Action = Action rule, acl_Direction = Direction rule,
      acl_LocalAddresses = [], acl_RemoteAddresses = RemoteAddresses rule,
      acl_LocalPorts = LocalPorts rule, acl_RemotePorts = RemotePorts rule,
      acl_Priority = Priority rule\<rparr>"

text \<open>The rule set \<open>ApplyACLRules\<close> records for an endpoint.\<close>

definition ruleSetOf :: "EndpointPolicy list \<Rightarrow> HostComputeEndpoint \<Rightarrow> RuleSet" where
  "ruleSetOf policies = (\<lambda>e. \<lparr>EndpointID = endpoint_Id e, Policies = policies\<rparr>)"

section \<open>A host for concrete runs\<close>

text \<open>
  A host that keeps a list of endpoints, fails to list them when \<open>list_fails\<close> is set,
  fails to install on the endpoints named in \<open>apply_broken\<close> and to remove from those in
  \<open>remove_broken\<close>, and logs every call it receives.
\<close>

datatype host_call =
    CallListEndpoints
  | CallGetEndpointByID string
  | CallApply string RequestType "EndpointPolicy list"
  | CallRemove string RequestType "EndpointPolicy list"

record fake_host =
  host_endpoints :: "HostComputeEndpoint list"
  list_fails :: bool
  apply_broken :: "string list"
  remove_broken :: "string list"
  calls :: "host_call list"

definition fakeClient :: "fake_host HCNClient" where
  "fakeClient =
     \<lparr>ListEndpoints = (\<lambda>h.
        (if list_fails h then Inl (HostError ''list failed'') else Inr (host_endpoints h),
         h\<lparr>calls := calls h @ [CallListEndpoints]\<rparr>)),
      GetEndpointByID = (\<lambda>i h.
        (case find (\<lambda>e. endpoint_Id e = i) (host_endpoints h) of
           None \<Rightarrow> Inl (HostError ''endpoint not found'')
         | Some e \<Rightarrow> Inr e,
         h\<lparr>calls := calls h @ [CallGetEndpointByID i]\<rparr>)),
      ApplyEndpointPolicy = (\<lambda>e t req h.
        (if endpoint_Id e \<in> set (apply_broken h) then Some (HostError ''apply failed'') else None,
         h\<lparr>calls := calls h @ [CallApply (endpoint_Id e) t (request_Policies req)]\<rparr>)),
      RemoveEndpointPolicy = (\<lambda>e t req h.
        (if endpoint_Id e \<in> set (remove_broken h) then Some (HostError ''remove failed'') else None,
         h\<lparr>calls := calls h @ [CallRemove (endpoint_Id e) t (request_Policies req)]\<rparr>))\<rparr>"

text \<open>An encoder that fails on a rule without remote addresses, and returns them otherwise.\<close>

definition fake_marshal :: "AclPolicySetting \<Rightarrow> error + string" where
  "fake_marshal s =
     (if acl_RemoteAddresses s = [] then Inl (HostError ''unsupported value'')
      else Inr (acl_RemoteAddresses s))"

definition ep1 :: HostComputeEndpoint where
  "ep1 = \<lparr>endpoint_Id = ''ep-1'', endpoint_Name = ''endpoint-1''\<rparr>"

definition ep2 :: HostComputeEndpoint where
  "ep2 = \<lparr>endpoint_Id = ''ep-2'', endpoint_Name = ''endpoint-2''\<rparr>"

definition ep3 :: HostComputeEndpoint where
  "ep3 = \<lparr>endpoint_Id = ''ep-3'', endpoint_Name = ''endpoint-3''\<rparr>"

definition allow_http :: ACLRule where
  "allow_http =
     \<lparr>Name = ''allow-http'', Action = ActionTypeAllow, Direction = DirectionTypeIn,
      Protocol = ''6'', LocalPorts = ''80'', RemotePorts = [],
      RemoteAddresses = ''0.0.0.0/0'', Priority = 100\<rparr>"

definition bad_rule :: ACLRule where
  "bad_rule = allow_http\<lparr>RemoteAddresses := []\<rparr>"

definition http_policies :: "EndpointPolicy list" where
  "http_policies = [\<lparr>policy_Type = ACL, Settings = ''0.0.0.0/0''\<rparr>]"

definition host0 :: fake_host where
  "host0 = \<lparr>host_endpoints = [], list_fails = False, apply_broken = [], remove_broken = [],
            calls = []\<rparr>"

text \<open>
  Hosts: one with three endpoints, where installing fails on \<open>ep-2\<close> and removing fails on
  \<open>ep-3\<close>; one with a single endpoint, on which installing fails; one with a single
  endpoint and no failure; one that cannot list its endpoints.
\<close>

definition host3 :: fake_host where
  "host3 = host0\<lparr>host_endpoints := [ep1, ep2, ep3], apply_broken := [''ep-2''],
                  remove_broken := [''ep-3'']\<rparr>"

definition host_broken :: fake_host where
  "host_broken = host0\<lparr>host_endpoints := [ep1], apply_broken := [''ep-1'']\<rparr>"

definition host1 :: fake_host where
  "host1 = host0\<lparr>host_endpoints := [ep1]\<rparr>"

definition host_unlisted :: fake_host where
  "host_unlisted = host0\<lparr>list_fails := True\<rparr>"

text \<open>
  Managers: a new one, and one that already tracks \<open>default/web\<close> with a rule set of an
  endpoint \<open>ep-9\<close>, which none of the hosts above has.
\<close>

definition manager_new :: "fake_host Manager" where
  "manager_new = NewManager fakeClient"

definition old_ruleSet :: RuleSet where
  "old_ruleSet = \<lparr>EndpointID = ''ep-9'', Policies = []\<rparr>"

definition manager_old :: "fake_host Manager" where
  "manager_old = \<lparr>client = fakeClient, appliedPolicies = [''default/web'' \<mapsto> [old_ruleSet]]\<rparr>"

definition manager_tracked :: "fake_host Manager" where
  "manager_tracked =
     \<lparr>client = fakeClient,
      appliedPolicies =
        [''default/web'' \<mapsto>
           [ruleSetOf http_policies ep1, ruleSetOf http_policies ep3, old_ruleSet]]\<rparr>"

section \<open>The converter refines the specified expansion\<close>

lemma length_assign [simp]: "length (assign_priorities p rs) = length rs"
  by (induction rs arbitrary: p) auto

lemma assign_append:
  "assign_priorities p (xs @ ys) = assign_priorities p xs @ assign_priorities (p + of_nat (length xs)) ys"
  by (induction xs arbitrary: p) (auto simp: add.assoc add.commute)

lemma assign_nth:
  "k < length rs \<Longrightarrow> assign_priorities p rs ! k = (rs ! k)\<lparr>Priority := p + of_nat k\<rparr>"
proof (induction rs arbitrary: p k)
  case Nil then show ?case by simp
next
  case (Cons r rs)
  then show ?case by (cases k) (auto simp: add.assoc add.commute)
qed

lemma ingressFromLoop_eq:
  "ingressFromLoop np proto ports peers rules p =
     (rules @ assign_priorities p (map (ingressRuleFor np proto ports) (resolvable peers)),
      p + of_nat (length (resolvable peers)))"
proof (induction peers arbitrary: rules p)
  case Nil then show ?case by (simp add: resolvable_def)
next
  case (Cons a peers)
  show ?case
    by (simp add: Cons.IH Let_def) (simp add: resolvable_def ingressRuleFor_def add.assoc add.commute)
qed

lemma length_spec_expand: "length (spec_expand mk ports peers) = spec_count ports peers"
  by (induction ports) (auto simp: spec_expand_def spec_count_def length_concat comp_def sum_list_triv)

lemma egressToLoop_eq:
  "egressToLoop np proto ports peers rules p =
     (rules @ assign_priorities p (map (egressRuleFor np proto ports) (resolvable peers)),
      p + of_nat (length (resolvable peers)))"
proof (induction peers arbitrary: rules p)
  case Nil then show ?case by (simp add: resolvable_def)
next
  case (Cons a peers)
  show ?case
    by (simp add: Cons.IH Let_def) (simp add: resolvable_def egressRuleFor_def add.assoc add.commute)
qed

lemma ingressPortsLoop_eq:
  "ingressPortsLoop np froms ports rules p =
     (rules @ assign_priorities p (concat (map (port_block (ingressRuleFor np) froms) ports)),
      p + of_nat (length (concat (map (port_block (ingressRuleFor np) froms) ports))))"
proof (induction ports arbitrary: rules p)
  case Nil then show ?case by simp
next
  case (Cons port ports)
  show ?case
  proof (cases "froms = []")
    case True
    show ?thesis
      by (simp only: ingressPortsLoop.simps Cons.IH cong: if_cong)
         (simp add: True port_block_def ingressRuleFor_def add.assoc)
  next
    case False
    show ?thesis
      by (simp only: ingressPortsLoop.simps Cons.IH ingressFromLoop_eq cong: if_cong)
         (simp add: False Cons.IH port_block_def assign_append add.assoc)
  qed
qed

lemma egressPortsLoop_eq:
  "egressPortsLoop np tos ports rules p =
     (rules @ assign_priorities p (concat (map (port_block (egressRuleFor np) tos) ports)),
      p + of_nat (length (concat (map (port_block (egressRuleFor np) tos) ports))))"
proof (induction ports arbitrary: rules p)
  case Nil then show ?case by simp
next
  case (Cons port ports)
  show ?case
  proof (cases "tos = []")
    case True
    show ?thesis
      by (simp only: egressPortsLoop.simps Cons.IH cong: if_cong)
         (simp add: True port_block_def egressRuleFor_def add.assoc)
  next
    case False
    show ?thesis
      by (simp only: egressPortsLoop.simps Cons.IH egressToLoop_eq cong: if_cong)
         (simp add: False Cons.IH port_block_def assign_append add.assoc)
  qed
qed

lemma spec_expand_ports:
  "ports \<noteq> [] \<Longrightarrow> spec_expand mk ports peers = concat (map (port_block mk peers) ports)"
  by (simp add: spec_expand_def port_block_def)

lemma convertIngressRule_eq:
  "convertIngressRule np r p =
     (assign_priorities p (spec_expand (ingressRuleFor np) (ingress_Ports r) (From r)),
      p + of_nat (length (spec_expand (ingressRuleFor np) (ingress_Ports r) (From r))))"
proof (cases "ingress_Ports r = []")
  case True
  then show ?thesis
    by (simp add: convertIngressRule_def spec_expand_def ingressFromLoop_eq ingressRuleFor_def)
next
  case False
  then show ?thesis
    by (simp add: convertIngressRule_def ingressPortsLoop_eq spec_expand_ports)
qed

lemma convertEgressRule_eq:
  "convertEgressRule np r p =
     (assign_priorities p (spec_expand (egressRuleFor np) (egress_Ports r) (To r)),
      p + of_nat (length (spec_expand (egressRuleFor np) (egress_Ports r) (To r))))"
proof (cases "egress_Ports r = []")
  case True
  then show ?thesis
    by (simp add: convertEgressRule_def spec_expand_def egressToLoop_eq egressRuleFor_def)
next
  case False
  then show ?thesis
    by (simp add: convertEgressRule_def egressPortsLoop_eq spec_expand_ports)
qed

lemma ingressLoop_eq:
  "ingressLoop np rs rules p =
     (rules @ assign_priorities p (concat (map (spec_ingress np) rs)),
      p + of_nat (length (concat (map (spec_ingress np) rs))))"
proof (induction rs arbitrary: rules p)
  case Nil then show ?case by simp
next
  case (Cons r rs)
  show ?case
    by (simp add: Cons.IH convertIngressRule_eq spec_ingress_def assign_append add.assoc)
qed

lemma egressLoop_eq:
  "egressLoop np rs rules p =
     (rules @ assign_priorities p (concat (map (spec_egress np) rs)),
      p + of_nat (length (concat (map (spec_egress np) rs))))"
proof (induction rs arbitrary: rules p)
  case Nil then show ?case by simp
next
  case (Cons r rs)
  show ?case
    by (simp add: Cons.IH convertEgressRule_eq spec_egress_def assign_append add.assoc)
qed

lemma NetworkPolicyToACLRules_eq:
  "NetworkPolicyToACLRules np = assign_priorities 100 (spec_rules np)"
  by (simp add: NetworkPolicyToACLRules_def ingressLoop_eq egressLoop_eq spec_rules_def assign_append)

section \<open>Priorities of the emitted rules\<close>

lemma map_Priority_assign:
  "map Priority (assign_priorities p rs) = map (\<lambda>k. p + of_nat k) [0..<length rs]"
  by (rule nth_equalityI) (simp_all add: assign_nth)

lemma unat_prio: "unat (100 + of_nat k :: 16 word) = (100 + k) mod 65536"
proof -
  have "(100 + of_nat k :: 16 word) = of_nat (100 + k)" by simp
  then show ?thesis by (simp only: unat_of_nat) simp
qed

lemma prio_no_wrap: "k < 65436 \<Longrightarrow> unat (100 + of_nat k :: 16 word) = 100 + k"
  by (simp add: unat_prio)

lemma NetworkPolicyToACLRules_nth:
  "k < length (NetworkPolicyToACLRules np) \<Longrightarrow>
     NetworkPolicyToACLRules np ! k = (spec_rules np ! k)\<lparr>Priority := 100 + of_nat k\<rparr>"
  by (simp add: NetworkPolicyToACLRules_eq assign_nth)

lemma length_NetworkPolicyToACLRules:
  "length (NetworkPolicyToACLRules np) = length (spec_rules np)"
  by (simp add: NetworkPolicyToACLRules_eq)

lemma length_spec_rules:
  "length (spec_rules np) =
     (\<Sum>r\<leftarrow>Ingress np. spec_count (ingress_Ports r) (From r)) +
     (\<Sum>r\<leftarrow>Egress np. spec_count (egress_Ports r) (To r))"
  by (simp add: spec_rules_def length_concat comp_def spec_ingress_def spec_egress_def length_spec_expand)

lemma strip_assign:
  "map (\<lambda>r. r\<lparr>Priority := 0\<rparr>) (assign_priorities p rs) = map (\<lambda>r. r\<lparr>Priority := 0\<rparr>) rs"
  by (induction rs arbitrary: p) auto

lemma Priority_spec_expand:
  "\<forall>a b c. Priority (mk a b c) = 0 \<Longrightarrow> r \<in> set (spec_expand mk ports peers) \<Longrightarrow> Priority r = 0"
  by (auto simp: spec_expand_def split: if_splits)

lemma Priority_spec_rules: "r \<in> set (spec_rules np) \<Longrightarrow> Priority r = 0"
  by (auto simp: spec_rules_def spec_ingress_def spec_egress_def ingressRuleFor_def egressRuleFor_def
      dest!: Priority_spec_expand [rotated])

lemma strip_spec_rules: "map (\<lambda>r. r\<lparr>Priority := 0\<rparr>) (spec_rules np) = spec_rules np"
  by (rule map_idI) (simp add: Priority_spec_rules)

lemma priorities_upto:
  assumes "length rs \<le> 65436"
  shows "map (unat \<circ> Priority) (assign_priorities 100 rs) = [100..<100 + length rs]"
proof (rule nth_equalityI)
  show "length (map (unat \<circ> Priority) (assign_priorities 100 rs)) = length [100..<100 + length rs]"
    by simp
next
  fix k assume "k < length (map (unat \<circ> Priority) (assign_priorities 100 rs))"
  then have k: "k < length rs" by simp
  with assms have "k < 65436" by simp
  then show "map (unat \<circ> Priority) (assign_priorities 100 rs) ! k = [100..<100 + length rs] ! k"
    using k by (simp add: assign_nth prio_no_wrap)
qed

lemma of_nat_16_inj:
  "j < 65536 \<Longrightarrow> k < 65536 \<Longrightarrow> (of_nat j :: 16 word) = of_nat k \<Longrightarrow> j = k"
  by (simp add: word_of_nat_eq_iff take_bit_nat_eq_self)

lemma distinct_assign:
  "distinct (map Priority (assign_priorities p rs)) \<longleftrightarrow> length rs \<le> 65536"
proof
  assume d: "distinct (map Priority (assign_priorities p rs))"
  show "length rs \<le> 65536"
  proof (rule ccontr)
    assume "\<not> length rs \<le> 65536"
    then have l: "65536 < length rs" by simp
    have z: "(65536 :: 16 word) = 0" by simp
    have pos: "0 < length rs" using l by linarith
    have e: "Priority (assign_priorities p rs ! 0) = Priority (assign_priorities p rs ! 65536)"
      using l pos by (simp add: assign_nth z)
    from d have "\<forall>i<length rs. \<forall>j<length rs. i \<noteq> j \<longrightarrow>
        Priority (assign_priorities p rs ! i) \<noteq> Priority (assign_priorities p rs ! j)"
      by (simp add: distinct_conv_nth)
    then have "(0::nat) \<noteq> 65536 \<longrightarrow>
        Priority (assign_priorities p rs ! 0) \<noteq> Priority (assign_priorities p rs ! 65536)"
      using l pos by blast
    with e show False by simp
  qed
next
  assume l: "length rs \<le> 65536"
  have "inj_on (\<lambda>k. p + of_nat k :: 16 word) (set [0..<length rs])"
    using l by (auto intro!: inj_onI dest!: of_nat_16_inj [rotated 2])
  then show "distinct (map Priority (assign_priorities p rs))"
    by (simp add: map_Priority_assign distinct_map)
qed

section \<open>The concrete policies, evaluated\<close>

lemma example_rules:
  "NetworkPolicyToACLRules example_policy =
     [\<lparr>Name = ''default/web-ingress'', Action = ActionTypeAllow, Direction = DirectionTypeIn,
       Protocol = ''6'', LocalPorts = ''80'', RemotePorts = [],
       RemoteAddresses = ''10.0.0.0/8'', Priority = 100\<rparr>,
      \<lparr>Name = ''default/web-ingress'', Action = ActionTypeAllow, Direction = DirectionTypeIn,
       Protocol = ''17'', LocalPorts = [], RemotePorts = [],
       RemoteAddresses = ''10.0.0.0/8'', Priority = 101\<rparr>,
      \<lparr>Name = ''default/web-egress'', Action = ActionTypeAllow, Direction = DirectionTypeOut,
       Protocol = [], LocalPorts = [], RemotePorts = [],
       RemoteAddresses = ''0.0.0.0/0'', Priority = 102\<rparr>]"
  by code_simp

lemma concat_replicate_single: "concat (replicate n [x]) = replicate n x"
  by (induction n) auto

lemma spec_rules_wrap:
  "spec_rules wrap_policy = replicate 65437 (ingressRuleFor wrap_policy [] [] ''0.0.0.0/0'')"
  by (simp add: spec_rules_def wrap_policy_def spec_ingress_def spec_expand_def open_ingress_def
      concat_replicate_single)

lemma length_wrap: "length (NetworkPolicyToACLRules wrap_policy) = 65437"
  by (simp add: length_NetworkPolicyToACLRules spec_rules_wrap)

lemma Priority_wrap:
  "k < 65437 \<Longrightarrow> Priority (NetworkPolicyToACLRules wrap_policy ! k) = 100 + of_nat k"
  by (simp add: NetworkPolicyToACLRules_nth length_wrap)

section \<open>Expansion counts, order and priorities\<close>

lemma strip_NetworkPolicyToACLRules:
  "map (\<lambda>r. r\<lparr>Priority := 0\<rparr>) (NetworkPolicyToACLRules np) = spec_rules np"
  by (simp add: NetworkPolicyToACLRules_eq strip_assign strip_spec_rules)

lemma Priority_spec_ingress: "r \<in> set (spec_ingress np ir) \<Longrightarrow> Priority r = 0"
  by (auto simp: spec_ingress_def ingressRuleFor_def dest!: Priority_spec_expand [rotated])

lemma Priority_spec_egress: "r \<in> set (spec_egress np er) \<Longrightarrow> Priority r = 0"
  by (auto simp: spec_egress_def egressRuleFor_def dest!: Priority_spec_expand [rotated])

lemma strip_convertIngressRule:
  "map (\<lambda>r. r\<lparr>Priority := 0\<rparr>) (fst (convertIngressRule np ir p)) = spec_ingress np ir"
proof -
  have "map (\<lambda>r. r\<lparr>Priority := 0\<rparr>) (spec_ingress np ir) = spec_ingress np ir"
    by (rule map_idI) (simp add: Priority_spec_ingress)
  then show ?thesis
    by (simp add: convertIngressRule_eq strip_assign spec_ingress_def)
qed

lemma strip_convertEgressRule:
  "map (\<lambda>r. r\<lparr>Priority := 0\<rparr>) (fst (convertEgressRule np er q)) = spec_egress np er"
proof -
  have "map (\<lambda>r. r\<lparr>Priority := 0\<rparr>) (spec_egress np er) = spec_egress np er"
    by (rule map_idI) (simp add: Priority_spec_egress)
  then show ?thesis
    by (simp add: convertEgressRule_eq strip_assign spec_egress_def)
qed

lemma priorities_NetworkPolicyToACLRules:
  "length (NetworkPolicyToACLRules np) \<le> 65436 \<Longrightarrow>
     map (unat \<circ> Priority) (NetworkPolicyToACLRules np) =
       [100..<100 + length (NetworkPolicyToACLRules np)]"
  by (simp add: NetworkPolicyToACLRules_eq priorities_upto del: map_map)

text \<open>
  Claim C1, as amended. Each ingress rule with ports \<open>ps\<close> and peers \<open>qs\<close> converts to
  \<open>spec_count ps qs\<close> rules: one when both lists are empty, one per resolvable peer when
  only peers are given, one per port when only ports are given, and otherwise the number of
  ports times the number of resolvable peers; the rules are those of \<open>spec_ingress\<close>, port
  outer and peer inner. Egress rules likewise. The whole output has the sum of these lengths
  and is, priorities apart, the ingress expansions in order followed by the egress expansions
  in order. When the policy expands to at most 65436 rules, the priorities are
  \<open>100, 101, 102, \<dots>\<close> in emission order.
\<close>

theorem C1_expansion_and_priorities:
  "length (fst (convertIngressRule np ir p)) = spec_count (ingress_Ports ir) (From ir) \<and>
   length (fst (convertEgressRule np er q)) = spec_count (egress_Ports er) (To er) \<and>
   map (\<lambda>r. r\<lparr>Priority := 0\<rparr>) (fst (convertIngressRule np ir p)) = spec_ingress np ir \<and>
   map (\<lambda>r. r\<lparr>Priority := 0\<rparr>) (fst (convertEgressRule np er q)) = spec_egress np er \<and>
   length (NetworkPolicyToACLRules np) =
     (\<Sum>r\<leftarrow>Ingress np. spec_count (ingress_Ports r) (From r)) +
     (\<Sum>r\<leftarrow>Egress np. spec_count (egress_Ports r) (To r)) \<and>
   map (\<lambda>r. r\<lparr>Priority := 0\<rparr>) (NetworkPolicyToACLRules np) =
     concat (map (spec_ingress np) (Ingress np)) @ concat (map (spec_egress np) (Egress np)) \<and>
   (length (NetworkPolicyToACLRules np) \<le> 65436 \<longrightarrow>
      map (unat \<circ> Priority) (NetworkPolicyToACLRules np) =
        [100..<100 + length (NetworkPolicyToACLRules np)])"
proof (intro conjI impI)
  show "length (fst (convertIngressRule np ir p)) = spec_count (ingress_Ports ir) (From ir)"
    by (simp add: convertIngressRule_eq length_spec_expand)
  show "length (fst (convertEgressRule np er q)) = spec_count (egress_Ports er) (To er)"
    by (simp add: convertEgressRule_eq length_spec_expand)
  show "map (\<lambda>r. r\<lparr>Priority := 0\<rparr>) (fst (convertIngressRule np ir p)) = spec_ingress np ir"
    by (rule strip_convertIngressRule)
  show "map (\<lambda>r. r\<lparr>Priority := 0\<rparr>) (fst (convertEgressRule np er q)) = spec_egress np er"
    by (rule strip_convertEgressRule)
  show "length (NetworkPolicyToACLRules np) =
     (\<Sum>r\<leftarrow>Ingress np. spec_count (ingress_Ports r) (From r)) +
     (\<Sum>r\<leftarrow>Egress np. spec_count (egress_Ports r) (To r))"
    by (simp only: length_NetworkPolicyToACLRules length_spec_rules)
  show "map (\<lambda>r. r\<lparr>Priority := 0\<rparr>) (NetworkPolicyToACLRules np) =
     concat (map (spec_ingress np) (Ingress np)) @ concat (map (spec_egress np) (Egress np))"
    by (simp only: strip_NetworkPolicyToACLRules spec_rules_def)
  assume "length (NetworkPolicyToACLRules np) \<le> 65436"
  then show "map (unat \<circ> Priority) (NetworkPolicyToACLRules np) =
        [100..<100 + length (NetworkPolicyToACLRules np)]"
    by (rule priorities_NetworkPolicyToACLRules)
qed

text \<open>The theorem of C1 at \<open>example_policy\<close>, which expands to three rules.\<close>

theorem C1_expansion_and_priorities_witness:
  "length (NetworkPolicyToACLRules example_policy) \<le> 65436 \<and>
   length (fst (convertIngressRule example_policy example_ingress 100)) = 2 \<and>
   length (fst (convertEgressRule example_policy example_egress 102)) = 1 \<and>
   length (NetworkPolicyToACLRules example_policy) = 3 \<and>
   map (unat \<circ> Priority) (NetworkPolicyToACLRules example_policy) = [100, 101, 102]"
proof -
  have l: "length (NetworkPolicyToACLRules example_policy) = 3"
    by (simp add: example_rules)
  have u: "[100..<103] = [100, 101, 102::nat]"
    by (simp add: upt_rec)
  have c: "spec_count (ingress_Ports example_ingress) (From example_ingress) = 2"
    by (simp add: spec_count_def example_ingress_def resolvable_def getPeerAddress_def)
  have d: "spec_count (egress_Ports example_egress) (To example_egress) = 1"
    by (simp add: spec_count_def example_egress_def)
  show ?thesis
    using C1_expansion_and_priorities [of example_policy example_ingress 100 example_egress 102]
    by (simp add: l u c d)
qed

text \<open>
  Claim C1 as stated fails at \<open>wrap_policy\<close>: its rule 65435 has priority 65535 and its
  rule 65436 has priority 0, so the priorities are not increasing.
\<close>

theorem C1_priority_wrap_counterexample:
  "length (NetworkPolicyToACLRules wrap_policy) = 65437 \<and>
   unat (Priority (NetworkPolicyToACLRules wrap_policy ! 65435)) = 65535 \<and>
   unat (Priority (NetworkPolicyToACLRules wrap_policy ! 65436)) = 0 \<and>
   \<not> sorted_wrt (<) (map (unat \<circ> Priority) (NetworkPolicyToACLRules wrap_policy))"
proof -
  have a: "unat (Priority (NetworkPolicyToACLRules wrap_policy ! 65435)) = 65535"
    by (simp add: Priority_wrap)
  have b: "unat (Priority (NetworkPolicyToACLRules wrap_policy ! 65436)) = 0"
    by (simp add: Priority_wrap)
  have "\<not> sorted_wrt (<) (map (unat \<circ> Priority) (NetworkPolicyToACLRules wrap_policy))"
  proof
    assume "sorted_wrt (<) (map (unat \<circ> Priority) (NetworkPolicyToACLRules wrap_policy))"
    then have "map (unat \<circ> Priority) (NetworkPolicyToACLRules wrap_policy) ! 65435
        < map (unat \<circ> Priority) (NetworkPolicyToACLRules wrap_policy) ! 65436"
      by (rule sorted_wrt_nth_less) (simp_all add: length_wrap)
    then show False using a b by (simp add: length_wrap)
  qed
  with a b show ?thesis by (simp add: length_wrap)
qed

section \<open>The 16-bit priority counter\<close>

lemma unat_Priority_nth:
  "k < length (NetworkPolicyToACLRules np) \<Longrightarrow>
     unat (Priority (NetworkPolicyToACLRules np ! k)) = (100 + k) mod 2 ^ 16"
  by (simp add: NetworkPolicyToACLRules_nth unat_prio)

lemma sorted_small:
  assumes "length (NetworkPolicyToACLRules np) \<le> 65436"
  shows "sorted_wrt (<) (map Priority (NetworkPolicyToACLRules np))"
proof -
  have "sorted_wrt (<) (map (unat \<circ> Priority) (NetworkPolicyToACLRules np))"
    by (simp only: priorities_NetworkPolicyToACLRules [OF assms] sorted_wrt_upt)
  then show ?thesis
    by (simp add: sorted_wrt_map word_less_nat_alt)
qed

lemma unsorted_large:
  assumes "65436 < length (NetworkPolicyToACLRules np)"
  shows "Priority (NetworkPolicyToACLRules np ! 65436) = 0"
    and "\<not> sorted_wrt (<) (map Priority (NetworkPolicyToACLRules np))"
proof -
  have pos: "0 < length (NetworkPolicyToACLRules np)" using assms by linarith
  show z: "Priority (NetworkPolicyToACLRules np ! 65436) = 0"
    using assms by (simp add: NetworkPolicyToACLRules_nth)
  have h: "Priority (NetworkPolicyToACLRules np ! 0) = 100"
    using pos by (simp add: NetworkPolicyToACLRules_nth)
  show "\<not> sorted_wrt (<) (map Priority (NetworkPolicyToACLRules np))"
  proof
    assume "sorted_wrt (<) (map Priority (NetworkPolicyToACLRules np))"
    then have "map Priority (NetworkPolicyToACLRules np) ! 0
        < map Priority (NetworkPolicyToACLRules np) ! 65436"
      by (rule sorted_wrt_nth_less) (use assms in simp_all)
    then show False using assms pos z h by simp
  qed
qed

text \<open>
  Claim C10, as amended. The priority counter is a 16-bit unsigned integer starting at 100:
  the priority of the \<open>k\<close>-th emitted rule, counting from 0, is \<open>(100 + k) mod 2 ^ 16\<close>.
  A policy that expands to at most 65436 rules has strictly increasing priorities
  \<open>100 + k\<close>, with no wrap. A policy that expands to more rules wraps the counter, rule
  65436 gets priority 0 and the priorities are not monotonic. Priorities repeat exactly when
  the policy expands to more than 65536 rules.
\<close>

theorem C10_priority_counter:
  "(\<forall>k<length (NetworkPolicyToACLRules np).
      unat (Priority (NetworkPolicyToACLRules np ! k)) = (100 + k) mod 2 ^ 16) \<and>
   (length (NetworkPolicyToACLRules np) \<le> 65436 \<longrightarrow>
      sorted_wrt (<) (map Priority (NetworkPolicyToACLRules np)) \<and>
      (\<forall>k<length (NetworkPolicyToACLRules np).
         unat (Priority (NetworkPolicyToACLRules np ! k)) = 100 + k)) \<and>
   (65436 < length (NetworkPolicyToACLRules np) \<longrightarrow>
      Priority (NetworkPolicyToACLRules np ! 65436) = 0 \<and>
      \<not> sorted_wrt (<) (map Priority (NetworkPolicyToACLRules np))) \<and>
   (distinct (map Priority (NetworkPolicyToACLRules np)) \<longleftrightarrow>
      length (NetworkPolicyToACLRules np) \<le> 65536)"
proof (intro conjI impI allI)
  fix k assume "k < length (NetworkPolicyToACLRules np)"
  then show "unat (Priority (NetworkPolicyToACLRules np ! k)) = (100 + k) mod 2 ^ 16"
    by (rule unat_Priority_nth)
next
  assume "length (NetworkPolicyToACLRules np) \<le> 65436"
  then show "sorted_wrt (<) (map Priority (NetworkPolicyToACLRules np))"
    by (rule sorted_small)
next
  fix k
  assume "length (NetworkPolicyToACLRules np) \<le> 65436" and "k < length (NetworkPolicyToACLRules np)"
  then show "unat (Priority (NetworkPolicyToACLRules np ! k)) = 100 + k"
    by (simp add: unat_Priority_nth)
next
  assume "65436 < length (NetworkPolicyToACLRules np)"
  then show "Priority (NetworkPolicyToACLRules np ! 65436) = 0"
    by (rule unsorted_large)
next
  assume "65436 < length (NetworkPolicyToACLRules np)"
  then show "\<not> sorted_wrt (<) (map Priority (NetworkPolicyToACLRules np))"
    by (rule unsorted_large)
next
  show "distinct (map Priority (NetworkPolicyToACLRules np)) \<longleftrightarrow>
      length (NetworkPolicyToACLRules np) \<le> 65536"
    by (simp only: NetworkPolicyToACLRules_eq distinct_assign length_assign)
qed

text \<open>
  The theorem of C10 at \<open>example_policy\<close> (three rules, no wrap) and at \<open>wrap_policy\<close>
  (65437 rules, the counter wraps once).
\<close>

theorem C10_priority_counter_witness:
  "length (NetworkPolicyToACLRules example_policy) \<le> 65436 \<and>
   (1::nat) < length (NetworkPolicyToACLRules example_policy) \<and>
   unat (Priority (NetworkPolicyToACLRules example_policy ! 1)) = 101 \<and>
   sorted_wrt (<) (map Priority (NetworkPolicyToACLRules example_policy)) \<and>
   65436 < length (NetworkPolicyToACLRules wrap_policy) \<and>
   Priority (NetworkPolicyToACLRules wrap_policy ! 65436) = 0 \<and>
   \<not> sorted_wrt (<) (map Priority (NetworkPolicyToACLRules wrap_policy)) \<and>
   distinct (map Priority (NetworkPolicyToACLRules wrap_policy))"
proof -
  have l: "length (NetworkPolicyToACLRules example_policy) = 3"
    by (simp add: example_rules)
  show ?thesis
    using C10_priority_counter [of example_policy] C10_priority_counter [of wrap_policy]
    by (simp add: l length_wrap)
qed

text \<open>
  Claim C10 as stated fails at \<open>wrap_policy\<close>: it expands to more than 65436 rules, yet
  no priority is repeated.
\<close>

theorem C10_no_repeat_counterexample:
  "65436 < length (NetworkPolicyToACLRules wrap_policy) \<and>
   distinct (map Priority (NetworkPolicyToACLRules wrap_policy))"
  by (simp add: length_wrap NetworkPolicyToACLRules_eq distinct_assign del: length_assign)
     (simp add: spec_rules_wrap)

section \<open>Peers that are not address blocks\<close>

lemma resolvable_none:
  "\<forall>peer\<in>set peers. peer_IPBlock peer = None \<Longrightarrow> resolvable peers = []"
  by (induction peers) (auto simp: resolvable_def getPeerAddress_def)

lemma spec_expand_unresolvable:
  "peers \<noteq> [] \<Longrightarrow> resolvable peers = [] \<Longrightarrow> spec_expand mk ports peers = []"
  by (induction ports) (auto simp: spec_expand_def)

text \<open>
  Claim C6. The converter has no error result: \<open>NetworkPolicyToACLRules\<close> is a function
  from policies to rule lists, and every pointer the source dereferences is tested against
  \<open>nil\<close> first. A peer without an address block resolves to the empty address and is
  skipped: an ingress or egress rule whose peers are all of this kind converts to no rule and
  leaves the counter as it was, and a policy made of such rules converts to the empty list.
\<close>

theorem C6_non_address_peers_skipped:
  "(peer_IPBlock peer = None \<longrightarrow> getPeerAddress peer = []) \<and>
   (From ir \<noteq> [] \<and> (\<forall>peer\<in>set (From ir). peer_IPBlock peer = None) \<longrightarrow>
      convertIngressRule np ir p = ([], p)) \<and>
   (To er \<noteq> [] \<and> (\<forall>peer\<in>set (To er). peer_IPBlock peer = None) \<longrightarrow>
      convertEgressRule np er p = ([], p)) \<and>
   ((\<forall>ir\<in>set (Ingress np). From ir \<noteq> [] \<and> (\<forall>peer\<in>set (From ir). peer_IPBlock peer = None)) \<and>
    (\<forall>er\<in>set (Egress np). To er \<noteq> [] \<and> (\<forall>peer\<in>set (To er). peer_IPBlock peer = None)) \<longrightarrow>
      NetworkPolicyToACLRules np = [])"
proof (intro conjI impI)
  assume "peer_IPBlock peer = None"
  then show "getPeerAddress peer = []" by (simp add: getPeerAddress_def)
next
  assume "From ir \<noteq> [] \<and> (\<forall>peer\<in>set (From ir). peer_IPBlock peer = None)"
  then show "convertIngressRule np ir p = ([], p)"
    by (simp add: convertIngressRule_eq spec_expand_unresolvable resolvable_none)
next
  assume "To er \<noteq> [] \<and> (\<forall>peer\<in>set (To er). peer_IPBlock peer = None)"
  then show "convertEgressRule np er p = ([], p)"
    by (simp add: convertEgressRule_eq spec_expand_unresolvable resolvable_none)
next
  assume a: "(\<forall>ir\<in>set (Ingress np). From ir \<noteq> [] \<and> (\<forall>peer\<in>set (From ir). peer_IPBlock peer = None)) \<and>
    (\<forall>er\<in>set (Egress np). To er \<noteq> [] \<and> (\<forall>peer\<in>set (To er). peer_IPBlock peer = None))"
  then have "\<forall>ir\<in>set (Ingress np). spec_ingress np ir = []"
    by (simp add: spec_ingress_def spec_expand_unresolvable resolvable_none)
  moreover from a have "\<forall>er\<in>set (Egress np). spec_egress np er = []"
    by (simp add: spec_egress_def spec_expand_unresolvable resolvable_none)
  ultimately have "spec_rules np = []"
    by (simp add: spec_rules_def)
  then show "NetworkPolicyToACLRules np = []"
    by (simp add: NetworkPolicyToACLRules_eq)
qed

text \<open>The theorem of C6 at \<open>selector_policy\<close>.\<close>

theorem C6_non_address_peers_skipped_witness:
  "peer_IPBlock selector_peer = None \<and> getPeerAddress selector_peer = [] \<and>
   map peer_IPBlock (From selector_ingress) = [None] \<and>
   convertIngressRule selector_policy selector_ingress 100 = ([], 100) \<and>
   map peer_IPBlock (To selector_egress) = [None] \<and>
   convertEgressRule selector_policy selector_egress 100 = ([], 100) \<and>
   NetworkPolicyToACLRules selector_policy = []"
proof -
  have a: "peer_IPBlock selector_peer = None" by (simp add: selector_peer_def)
  have b: "From selector_ingress \<noteq> [] \<and> (\<forall>peer\<in>set (From selector_ingress). peer_IPBlock peer = None)"
    by (simp add: selector_ingress_def selector_peer_def)
  have c: "To selector_egress \<noteq> [] \<and> (\<forall>peer\<in>set (To selector_egress). peer_IPBlock peer = None)"
    by (simp add: selector_egress_def selector_peer_def)
  have d: "Ingress selector_policy = [selector_ingress]" "Egress selector_policy = [selector_egress]"
    by (simp_all add: selector_policy_def)
  show ?thesis
    using C6_non_address_peers_skipped
      [of selector_peer selector_ingress selector_policy 100 selector_egress]
      a b c
    by (simp add: d) (simp add: selector_ingress_def selector_egress_def selector_peer_def)
qed

section \<open>Protocol and port resolution\<close>

lemma digit_value_digit_char: "d < 10 \<Longrightarrow> digit_value (digit_char d) = d"
  by (simp add: digit_value_def digit_char_def)

lemma decimal_value_snoc: "decimal_value (s @ [c]) = 10 * decimal_value s + digit_value c"
  by (simp add: decimal_value_def)

lemma decimal_value_nat_decimal: "decimal_value (nat_decimal n) = n"
proof (induction n rule: nat_decimal.induct)
  case (1 n)
  show ?case
  proof (cases "n < 10")
    case True
    then show ?thesis
      by (subst nat_decimal.simps) (simp add: decimal_value_def digit_value_digit_char)
  next
    case False
    then have "decimal_value (nat_decimal (n div 10)) = n div 10" by (rule "1.IH")
    with False show ?thesis
      by (subst nat_decimal.simps) (simp add: decimal_value_snoc digit_value_digit_char)
  qed
qed

lemma spec_expand_fields:
  assumes "r \<in> set (spec_expand mk ports peers)" and "ports \<noteq> []"
  shows "\<exists>port\<in>set ports. \<exists>addr.
           r = mk (protocolToNumber (port_Protocol port)) (portToString (port_Port port)) addr"
  using assms by (auto simp: spec_expand_def split: if_splits)

lemma set_assign:
  "r \<in> set (assign_priorities p rs) \<Longrightarrow> \<exists>r'\<in>set rs. \<exists>q. r = r'\<lparr>Priority := q\<rparr>"
  by (induction rs arbitrary: p) auto

lemma ingress_fields:
  assumes "r \<in> set (fst (convertIngressRule np ir p))" and "ingress_Ports ir \<noteq> []"
  shows "\<exists>port\<in>set (ingress_Ports ir).
           Protocol r = protocolToNumber (port_Protocol port) \<and>
           LocalPorts r = portToString (port_Port port) \<and> RemotePorts r = []"
proof -
  from assms(1) obtain r' q where r': "r' \<in> set (spec_expand (ingressRuleFor np) (ingress_Ports ir) (From ir))"
    and r: "r = r'\<lparr>Priority := q\<rparr>"
    by (auto simp: convertIngressRule_eq dest: set_assign)
  from spec_expand_fields [OF r' assms(2)] r show ?thesis
    by (auto simp: ingressRuleFor_def)
qed

lemma egress_fields:
  assumes "r \<in> set (fst (convertEgressRule np er p))" and "egress_Ports er \<noteq> []"
  shows "\<exists>port\<in>set (egress_Ports er).
           Protocol r = protocolToNumber (port_Protocol port) \<and>
           RemotePorts r = portToString (port_Port port) \<and> LocalPorts r = []"
proof -
  from assms(1) obtain r' q where r': "r' \<in> set (spec_expand (egressRuleFor np) (egress_Ports er) (To er))"
    and r: "r = r'\<lparr>Priority := q\<rparr>"
    by (auto simp: convertEgressRule_eq dest: set_assign)
  from spec_expand_fields [OF r' assms(2)] r show ?thesis
    by (auto simp: egressRuleFor_def)
qed

text \<open>
  Claim C7. Protocol resolution: TCP gives \<open>"6"\<close>, UDP \<open>"17"\<close>, SCTP \<open>"132"\<close>; an unset
  protocol gives \<open>"6"\<close>, and so does any other protocol value. Port resolution: an absent
  port gives the empty string; an integral port gives its decimal string (for a port that
  is not negative, the string reads back as the port number); a named port, and a port of
  any other type, gives the empty string. Every rule emitted for an ingress rule with ports
  carries the protocol and the port string of one of these ports, the port string in
  \<open>LocalPorts\<close>; for an egress rule, in \<open>RemotePorts\<close>.
\<close>

theorem C7_protocol_and_port_resolution:
  "protocolToNumber (Some ProtocolTCP) = ''6'' \<and>
   protocolToNumber (Some ProtocolUDP) = ''17'' \<and>
   protocolToNumber (Some ProtocolSCTP) = ''132'' \<and>
   protocolToNumber None = ''6'' \<and>
   (proto \<noteq> ProtocolTCP \<and> proto \<noteq> ProtocolUDP \<and> proto \<noteq> ProtocolSCTP \<longrightarrow>
      protocolToNumber (Some proto) = ''6'') \<and>
   portToString None = [] \<and>
   (Type port = intstr_Int \<longrightarrow> portToString (Some port) = Sprintf_d (sint (IntVal port))) \<and>
   (Type port = intstr_Int \<and> 0 \<le> sint (IntVal port) \<longrightarrow>
      decimal_value (portToString (Some port)) = nat (sint (IntVal port))) \<and>
   (Type port \<noteq> intstr_Int \<longrightarrow> portToString (Some port) = []) \<and>
   (\<forall>r\<in>set (fst (convertIngressRule np ir p)). ingress_Ports ir \<noteq> [] \<longrightarrow>
      (\<exists>port\<in>set (ingress_Ports ir).
         Protocol r = protocolToNumber (port_Protocol port) \<and>
         LocalPorts r = portToString (port_Port port) \<and> RemotePorts r = [])) \<and>
   (\<forall>r\<in>set (fst (convertEgressRule np er p)). egress_Ports er \<noteq> [] \<longrightarrow>
      (\<exists>port\<in>set (egress_Ports er).
         Protocol r = protocolToNumber (port_Protocol port) \<and>
         RemotePorts r = portToString (port_Port port) \<and> LocalPorts r = []))"
proof (intro conjI impI ballI)
  show "protocolToNumber (Some ProtocolTCP) = ''6''"
    by (simp add: protocolToNumber_def)
  show "protocolToNumber (Some ProtocolUDP) = ''17''"
    by (simp add: protocolToNumber_def ProtocolUDP_def ProtocolTCP_def)
  show "protocolToNumber (Some ProtocolSCTP) = ''132''"
    by (simp add: protocolToNumber_def ProtocolUDP_def ProtocolTCP_def ProtocolSCTP_def)
  show "protocolToNumber None = ''6''"
    by (simp add: protocolToNumber_def)
  show "portToString None = []"
    by (simp add: portToString_def)
next
  assume "proto \<noteq> ProtocolTCP \<and> proto \<noteq> ProtocolUDP \<and> proto \<noteq> ProtocolSCTP"
  then show "protocolToNumber (Some proto) = ''6''"
    by (simp add: protocolToNumber_def)
next
  assume "Type port = intstr_Int"
  then show "portToString (Some port) = Sprintf_d (sint (IntVal port))"
    by (simp add: portToString_def)
next
  assume "Type port = intstr_Int \<and> 0 \<le> sint (IntVal port)"
  then show "decimal_value (portToString (Some port)) = nat (sint (IntVal port))"
    by (simp add: portToString_def Sprintf_d_def decimal_value_nat_decimal)
next
  assume "Type port \<noteq> intstr_Int"
  then show "portToString (Some port) = []"
    by (simp add: portToString_def)
next
  fix r assume "r \<in> set (fst (convertIngressRule np ir p))" and "ingress_Ports ir \<noteq> []"
  then show "\<exists>port\<in>set (ingress_Ports ir).
         Protocol r = protocolToNumber (port_Protocol port) \<and>
         LocalPorts r = portToString (port_Port port) \<and> RemotePorts r = []"
    by (rule ingress_fields)
next
  fix r assume "r \<in> set (fst (convertEgressRule np er p))" and "egress_Ports er \<noteq> []"
  then show "\<exists>port\<in>set (egress_Ports er).
         Protocol r = protocolToNumber (port_Protocol port) \<and>
         RemotePorts r = portToString (port_Port port) \<and> LocalPorts r = []"
    by (rule egress_fields)
qed

text \<open>
  The theorem of C7 at the protocol \<open>"ICMP"\<close>, the ports 443 and \<open>"http"\<close>, and the
  rules \<open>example_ingress\<close> and \<open>dns_egress\<close>.
\<close>

theorem C7_protocol_and_port_resolution_witness:
  "''ICMP'' \<noteq> ProtocolTCP \<and> ''ICMP'' \<noteq> ProtocolUDP \<and> ''ICMP'' \<noteq> ProtocolSCTP \<and>
   protocolToNumber (Some ''ICMP'') = ''6'' \<and>
   Type https_port = intstr_Int \<and> 0 \<le> sint (IntVal https_port) \<and>
   portToString (Some https_port) = ''443'' \<and>
   decimal_value (portToString (Some https_port)) = 443 \<and>
   Type named_port \<noteq> intstr_Int \<and> portToString (Some named_port) = [] \<and>
   ingress_Ports example_ingress \<noteq> [] \<and>
   map Protocol (fst (convertIngressRule example_policy example_ingress 100)) = [''6'', ''17''] \<and>
   map LocalPorts (fst (convertIngressRule example_policy example_ingress 100)) = [''80'', []] \<and>
   map RemotePorts (fst (convertIngressRule example_policy example_ingress 100)) = [[], []] \<and>
   egress_Ports dns_egress \<noteq> [] \<and>
   map Protocol (fst (convertEgressRule example_policy dns_egress 100)) = [''17''] \<and>
   map RemotePorts (fst (convertEgressRule example_policy dns_egress 100)) = [''53''] \<and>
   map LocalPorts (fst (convertEgressRule example_policy dns_egress 100)) = [[]]"
proof -
  have a: "''ICMP'' \<noteq> ProtocolTCP \<and> ''ICMP'' \<noteq> ProtocolUDP \<and> ''ICMP'' \<noteq> ProtocolSCTP"
    by (simp add: ProtocolTCP_def ProtocolUDP_def ProtocolSCTP_def)
  have b: "Type https_port = intstr_Int \<and> 0 \<le> sint (IntVal https_port)"
    by (simp add: https_port_def)
  have c: "Sprintf_d (sint (IntVal https_port)) = ''443''"
    by code_simp
  have i: "nat (sint (IntVal https_port)) = 443"
    by (simp add: https_port_def)
  have d: "Type named_port \<noteq> intstr_Int"
    by (simp add: named_port_def intstr_Int_def intstr_String_def)
  have e: "ingress_Ports example_ingress \<noteq> []"
    by (simp add: example_ingress_def)
  have f: "egress_Ports dns_egress \<noteq> []"
    by (simp add: dns_egress_def)
  have g: "map Protocol (fst (convertIngressRule example_policy example_ingress 100)) = [''6'', ''17''] \<and>
      map LocalPorts (fst (convertIngressRule example_policy example_ingress 100)) = [''80'', []] \<and>
      map RemotePorts (fst (convertIngressRule example_policy example_ingress 100)) = [[], []]"
    by code_simp
  have h: "map Protocol (fst (convertEgressRule example_policy dns_egress 100)) = [''17''] \<and>
      map RemotePorts (fst (convertEgressRule example_policy dns_egress 100)) = [''53''] \<and>
      map LocalPorts (fst (convertEgressRule example_policy dns_egress 100)) = [[]]"
    by code_simp
  show ?thesis
    using C7_protocol_and_port_resolution [of "''ICMP''" https_port example_policy example_ingress 100 dns_egress]
      C7_protocol_and_port_resolution [of "''ICMP''" named_port example_policy example_ingress 100 dns_egress]
      a b c d e f g h
    by (auto simp: i)
qed

section \<open>The manager's loops and the answers of the host\<close>

lemma applyTrace_endpoints: "map fst (fst (applyTrace c policies endpoints h)) = endpoints"
  by (induction endpoints arbitrary: h) (auto split: prod.splits)

lemma removeTrace_ruleSets: "map fst (fst (removeTrace c ruleSets h)) = ruleSets"
  by (induction ruleSets arbitrary: h) (auto split: prod.splits)

lemma applyLoop_eq:
  "applyLoop c policies endpoints ruleSets applyErrors h =
     (ruleSets @ map (\<lambda>e. \<lparr>EndpointID = endpoint_Id e, Policies = policies\<rparr>)
                  (succeeded (fst (applyTrace c policies endpoints h))),
      applyErrors @ failures (fst (applyTrace c policies endpoints h)),
      snd (applyTrace c policies endpoints h))"
proof (induction endpoints arbitrary: ruleSets applyErrors h)
  case Nil
  then show ?case by (simp add: succeeded_def failures_def)
next
  case (Cons e es)
  show ?case
    by (simp add: Cons.IH succeeded_def failures_def split: prod.splits option.splits)
qed

lemma removeLoop_eq:
  "removeLoop c ruleSets removeErrors h =
     (removeErrors @ removeFailures (fst (removeTrace c ruleSets h)),
      snd (removeTrace c ruleSets h))"
proof (induction ruleSets arbitrary: removeErrors h)
  case Nil
  then show ?case by (simp add: removeFailures_def)
next
  case (Cons s ss)
  show ?case
    by (simp add: Cons.IH removeFailures_def removeOne_def split: prod.splits option.splits sum.splits)
qed

lemma length_failures:
  "length (failures outcomes) = length (filter (\<lambda>(e, r). r \<noteq> None) outcomes)"
  by (induction outcomes) (auto simp: failures_def split: option.splits)

lemma length_removeFailures:
  "length (removeFailures outcomes) = length (filter (\<lambda>(e, r). r \<noteq> None) outcomes)"
  by (induction outcomes) (auto simp: removeFailures_def split: option.splits)

lemma length_succeeded:
  "length (succeeded outcomes) = length outcomes - length (filter (\<lambda>(e, r). r \<noteq> None) outcomes)"
proof -
  have "length (filter (\<lambda>(e, r). r = None) outcomes) + length (filter (\<lambda>(e, r). r \<noteq> None) outcomes)
      = length outcomes"
    by (induction outcomes) auto
  then show ?thesis by (simp add: succeeded_def)
qed

lemma length_applyTrace: "length (fst (applyTrace c policies endpoints h)) = length endpoints"
  using applyTrace_endpoints [of c policies endpoints h, THEN arg_cong, of length] by simp

lemma length_removeTrace: "length (fst (removeTrace c ruleSets h)) = length ruleSets"
  using removeTrace_ruleSets [of c ruleSets h, THEN arg_cong, of length] by simp

lemma ApplyACLRules_listed:
  assumes "ListEndpoints (client m) h = (Inr endpoints, h1)" and "endpoints \<noteq> []"
    and "buildPolicies marshal rules = Inr policies"
    and "applyTrace (client m) policies endpoints h1 = (outcomes, h2)"
  shows "ApplyACLRules m marshal policyKey rules h =
     (if failures outcomes = [] then None
      else Some (ApplyAggregate (length (failures outcomes)) (length endpoints) (failures outcomes)),
      m\<lparr>appliedPolicies := (appliedPolicies m)(policyKey \<mapsto> map (ruleSetOf policies) (succeeded outcomes))\<rparr>,
      h2)"
  using assms by (simp add: ApplyACLRules_def applyLoop_eq Let_def ruleSetOf_def)

lemma RemoveACLRules_tracked:
  assumes "appliedPolicies m policyKey = Some ruleSets"
    and "removeTrace (client m) ruleSets h = (outcomes, h2)"
  shows "RemoveACLRules m policyKey h =
     (if removeFailures outcomes = [] then None
      else Some (RemoveAggregate (length (removeFailures outcomes)) (length ruleSets) (removeFailures outcomes)),
      m\<lparr>appliedPolicies := (appliedPolicies m)(policyKey := None)\<rparr>,
      h2)"
  using assms by (simp add: RemoveACLRules_def removeLoop_eq Let_def)

lemma RemoveACLRules_untracks:
  "appliedPolicies (fst (snd (RemoveACLRules m policyKey h))) = (appliedPolicies m)(policyKey := None)"
  by (auto simp: RemoveACLRules_def Let_def fun_eq_iff split: option.splits prod.splits)

lemma buildPoliciesLoop_fails_iff:
  "isl (buildPoliciesLoop marshal i rules policies) \<longleftrightarrow>
     (\<exists>r\<in>set rules. isl (marshal (aclSettingOf r)))"
proof (induction rules arbitrary: i policies)
  case Nil
  then show ?case by simp
next
  case (Cons r rs)
  show ?case
    by (cases "marshal (aclSettingOf r)")
       (simp_all add: Cons.IH aclSettingOf_def [symmetric] Let_def)
qed

lemma buildPoliciesLoop_ok:
  "\<forall>r\<in>set rules. \<not> isl (marshal (aclSettingOf r)) \<Longrightarrow>
     buildPoliciesLoop marshal i rules policies =
       Inr (policies @
            map (\<lambda>r. \<lparr>policy_Type = ACL, Settings = projr (marshal (aclSettingOf r))\<rparr>) rules)"
proof (induction rules arbitrary: i policies)
  case Nil
  then show ?case by simp
next
  case (Cons r rs)
  then show ?case
    by (cases "marshal (aclSettingOf r)")
       (simp_all add: aclSettingOf_def [symmetric] Let_def)
qed

section \<open>Apply, remove and the tracking map\<close>

lemma failures_Nil_iff:
  "failures outcomes = [] \<longleftrightarrow> length (filter (\<lambda>(e, r). r \<noteq> None) outcomes) = 0"
  using length_failures [of outcomes] by (metis length_0_conv)

lemma removeFailures_Nil_iff:
  "removeFailures outcomes = [] \<longleftrightarrow> length (filter (\<lambda>(e, r). r \<noteq> None) outcomes) = 0"
  using length_removeFailures [of outcomes] by (metis length_0_conv)

text \<open>
  Claim C2. Take a call of \<open>ApplyACLRules\<close> in which the host lists the endpoints
  \<open>endpoints\<close>, at least one, and the rules encode to \<open>policies\<close>; let \<open>outcomes\<close> be what
  the host answers to the install requests, one for each endpoint in order, and \<open>h2\<close> the
  state it is left in. Then every endpoint has an outcome (no early abort) and the call
  leaves the host in \<open>h2\<close>; it returns an error if and only if at least one install
  failed; and the tracking map afterwards is the one before with the entry of \<open>policyKey\<close>
  replaced by the rule sets of exactly the endpoints whose install succeeded, whatever the
  entry was before. These are as many as the endpoints less the failed ones.
\<close>

theorem C2_apply_tracks_successes:
  assumes "ListEndpoints (client m) h = (Inr endpoints, h1)" and "endpoints \<noteq> []"
    and "buildPolicies marshal rules = Inr policies"
    and "applyTrace (client m) policies endpoints h1 = (outcomes, h2)"
  shows "map fst outcomes = endpoints \<and>
    snd (snd (ApplyACLRules m marshal policyKey rules h)) = h2 \<and>
    (fst (ApplyACLRules m marshal policyKey rules h) \<noteq> None \<longleftrightarrow>
       1 \<le> length (filter (\<lambda>(e, r). r \<noteq> None) outcomes)) \<and>
    appliedPolicies (fst (snd (ApplyACLRules m marshal policyKey rules h))) =
      (appliedPolicies m)
        (policyKey \<mapsto> map (ruleSetOf policies) (map fst (filter (\<lambda>(e, r). r = None) outcomes))) \<and>
    length (map (ruleSetOf policies) (map fst (filter (\<lambda>(e, r). r = None) outcomes))) =
      length endpoints - length (filter (\<lambda>(e, r). r \<noteq> None) outcomes)"
proof -
  have e: "map fst outcomes = endpoints"
    using applyTrace_endpoints [of "client m" policies endpoints h1] assms(4) by simp
  then have l: "length outcomes = length endpoints"
    by (metis length_map)
  note r = ApplyACLRules_listed [OF assms, of policyKey]
  have "length (succeeded outcomes) = length endpoints - length (filter (\<lambda>(e, r). r \<noteq> None) outcomes)"
    by (simp only: length_succeeded l)
  then show ?thesis
    using e by (simp add: r failures_Nil_iff succeeded_def Suc_le_eq del: not_None_eq)
qed

text \<open>
  Claim C9. When \<open>ApplyACLRules\<close> lists at least one endpoint and the install fails on
  every one of them, the entry of \<open>policyKey\<close> is still overwritten, with the empty list:
  afterwards \<open>GetAppliedPolicies\<close> returns no rule set with \<open>found = True\<close>, whatever the
  entry held before, the key is among those \<open>ListTrackedPolicies\<close> returns, and the call
  returned the aggregate error counting all endpoints.
\<close>

theorem C9_all_failed_tracks_empty:
  assumes "ListEndpoints (client m) h = (Inr endpoints, h1)" and "endpoints \<noteq> []"
    and "buildPolicies marshal rules = Inr policies"
    and "applyTrace (client m) policies endpoints h1 = (outcomes, h2)"
    and "\<forall>(e, r)\<in>set outcomes. r \<noteq> None"
  shows "appliedPolicies (fst (snd (ApplyACLRules m marshal policyKey rules h))) policyKey = Some [] \<and>
    GetAppliedPolicies (fst (snd (ApplyACLRules m marshal policyKey rules h))) policyKey = ([], True) \<and>
    policyKey \<in> ListTrackedPolicies (fst (snd (ApplyACLRules m marshal policyKey rules h))) \<and>
    fst (ApplyACLRules m marshal policyKey rules h) =
      Some (ApplyAggregate (length endpoints) (length endpoints) (failures outcomes))"
proof -
  have e: "map fst outcomes = endpoints"
    using applyTrace_endpoints [of "client m" policies endpoints h1] assms(4) by simp
  then have l: "length outcomes = length endpoints"
    by (metis length_map)
  have f: "filter (\<lambda>(e, r). r \<noteq> None) outcomes = outcomes"
    using assms(5) by (auto intro: filter_True)
  have s: "succeeded outcomes = []"
    using assms(5) by (auto simp: succeeded_def filter_empty_conv)
  have n: "length (failures outcomes) = length endpoints"
    by (simp only: length_failures f l)
  then have "failures outcomes \<noteq> []"
    using assms(2) by auto
  then show ?thesis
    by (simp add: ApplyACLRules_listed [OF assms(1-4)] s n GetAppliedPolicies_def
        ListTrackedPolicies_def)
qed

text \<open>
  The zero-endpoint return of \<open>ApplyACLRules\<close>. When the host lists zero endpoints the
  call returns success and leaves the manager as it was and the host in the state the
  listing left it in: \<open>GetAppliedPolicies\<close> reports afterwards what it reported before.
  The repository's test \<open>TestApplyACLRules_NoEndpoints\<close> expects something else, the key
  found with an empty list of rule sets, which is what the path where every install fails
  stores.
\<close>

lemma ApplyACLRules_no_endpoints:
  assumes "ListEndpoints (client m) h = (Inr [], h1)"
  shows "ApplyACLRules m marshal policyKey rules h = (None, m, h1) \<and>
    GetAppliedPolicies (fst (snd (ApplyACLRules m marshal policyKey rules h))) policyKey =
      GetAppliedPolicies m policyKey \<and>
    (appliedPolicies m policyKey = None \<longrightarrow>
       GetAppliedPolicies (fst (snd (ApplyACLRules m marshal policyKey rules h))) policyKey =
         ([], False))"
  using assms by (simp add: ApplyACLRules_def GetAppliedPolicies_def)

text \<open>
  Claim C5. If listing the endpoints fails, \<open>ApplyACLRules\<close> returns that error, wrapped,
  with the manager unchanged and the host in the state the listing left it in. If the
  listing returns at least one endpoint and \<open>marshal\<close> fails on the setting of some rule,
  the call returns the encode error of a rule, again with the manager unchanged and the host
  in the state the listing left it in: no endpoint has been asked to install anything.
\<close>

theorem C5_fatal_errors_change_nothing:
  "(ListEndpoints (client m) h = (Inl err, h1) \<longrightarrow>
      ApplyACLRules m marshal policyKey rules h = (Some (ListEndpointsFailed err), m, h1)) \<and>
   (ListEndpoints (client m) h = (Inr endpoints, h1) \<and> endpoints \<noteq> [] \<and>
    (\<exists>rule\<in>set rules. isl (marshal (aclSettingOf rule))) \<longrightarrow>
      (\<exists>i e. buildPolicies marshal rules = Inl (MarshalFailed i e) \<and>
         ApplyACLRules m marshal policyKey rules h =
           (Some (BuildPoliciesFailed (MarshalFailed i e)), m, h1)))"
proof (intro conjI impI)
  assume "ListEndpoints (client m) h = (Inl err, h1)"
  then show "ApplyACLRules m marshal policyKey rules h = (Some (ListEndpointsFailed err), m, h1)"
    by (simp add: ApplyACLRules_def)
next
  assume a: "ListEndpoints (client m) h = (Inr endpoints, h1) \<and> endpoints \<noteq> [] \<and>
    (\<exists>rule\<in>set rules. isl (marshal (aclSettingOf rule)))"
  then have "isl (buildPolicies marshal rules)"
    by (simp add: buildPolicies_def buildPoliciesLoop_fails_iff)
  then obtain x where x: "buildPolicies marshal rules = Inl x"
    by (cases "buildPolicies marshal rules") auto
  have "\<exists>i e. buildPoliciesLoop marshal j rs ps = Inl y \<longrightarrow> y = MarshalFailed i e" for j rs ps y
    by (induction rs arbitrary: j ps) (auto simp: Let_def split: sum.splits)
  then obtain i e where "x = MarshalFailed i e"
    using x by (metis buildPolicies_def)
  with a x show "\<exists>i e. buildPolicies marshal rules = Inl (MarshalFailed i e) \<and>
         ApplyACLRules m marshal policyKey rules h =
           (Some (BuildPoliciesFailed (MarshalFailed i e)), m, h1)"
    by (simp add: ApplyACLRules_def)
qed

text \<open>
  Claim C3. For every manager, client, host state, key and rules: after \<open>ApplyACLRules\<close>
  followed by \<open>RemoveACLRules\<close> of the same key, \<open>GetAppliedPolicies\<close> reports the key
  not found and the key is not listed, whatever the host answered to the removals: the
  tracking map after the removal is the one before it without the key.
\<close>

theorem C3_apply_then_remove_untracked:
  "(case ApplyACLRules m marshal policyKey rules h of
      (r1, m1, h1) \<Rightarrow>
        (case RemoveACLRules m1 policyKey h1 of
           (r2, m2, h2) \<Rightarrow>
             GetAppliedPolicies m2 policyKey = ([], False) \<and>
             policyKey \<notin> ListTrackedPolicies m2 \<and>
             appliedPolicies m2 = (appliedPolicies m1)(policyKey := None)))"
proof -
  have u: "appliedPolicies m2 = (appliedPolicies m1)(policyKey := None)"
    if "RemoveACLRules m1 policyKey h1 = (r2, m2, h2)"
    for m1 m2 :: "'a Manager" and h1 h2 r2
    using RemoveACLRules_untracks [of m1 policyKey h1] that by simp
  show ?thesis
    by (auto simp: GetAppliedPolicies_def ListTrackedPolicies_def dest!: u split: prod.splits)
qed

text \<open>
  Claim C4, as amended. \<open>ApplyACLRules\<close>, once the endpoints are listed (at least one) and
  the rules encoded, and \<open>RemoveACLRules\<close> of a tracked key return the aggregate error
  exactly when one or more of the per-endpoint operations failed, all of them included; the
  error counts the failures out of the total. There is an outcome for every endpoint (every
  rule set), the host is left in the state after the last of them, and the tracking map is
  updated as in the success case: the entry replaced by the successes on apply, deleted on
  remove.
\<close>

theorem C4_aggregate_error_iff_any_failure:
  "(ListEndpoints (client m) h = (Inr endpoints, h1) \<and> endpoints \<noteq> [] \<and>
    buildPolicies marshal rules = Inr policies \<and>
    applyTrace (client m) policies endpoints h1 = (outcomes, h2) \<longrightarrow>
      map fst outcomes = endpoints \<and>
      ApplyACLRules m marshal policyKey rules h =
        (if length (filter (\<lambda>(e, r). r \<noteq> None) outcomes) = 0 then None
         else Some (ApplyAggregate (length (filter (\<lambda>(e, r). r \<noteq> None) outcomes))
                      (length endpoints) (failures outcomes)),
         m\<lparr>appliedPolicies :=
             (appliedPolicies m)(policyKey \<mapsto> map (ruleSetOf policies) (succeeded outcomes))\<rparr>,
         h2)) \<and>
   (appliedPolicies m policyKey = Some ruleSets \<and>
    removeTrace (client m) ruleSets h = (removals, h3) \<longrightarrow>
      map fst removals = ruleSets \<and>
      RemoveACLRules m policyKey h =
        (if length (filter (\<lambda>(s, r). r \<noteq> None) removals) = 0 then None
         else Some (RemoveAggregate (length (filter (\<lambda>(s, r). r \<noteq> None) removals))
                      (length ruleSets) (removeFailures removals)),
         m\<lparr>appliedPolicies := (appliedPolicies m)(policyKey := None)\<rparr>,
         h3))"
proof (intro conjI impI)
  assume a: "ListEndpoints (client m) h = (Inr endpoints, h1) \<and> endpoints \<noteq> [] \<and>
    buildPolicies marshal rules = Inr policies \<and>
    applyTrace (client m) policies endpoints h1 = (outcomes, h2)"
  show "map fst outcomes = endpoints"
    using applyTrace_endpoints [of "client m" policies endpoints h1] a by simp
  from a have "ApplyACLRules m marshal policyKey rules h =
     (if failures outcomes = [] then None
      else Some (ApplyAggregate (length (failures outcomes)) (length endpoints) (failures outcomes)),
      m\<lparr>appliedPolicies := (appliedPolicies m)(policyKey \<mapsto> map (ruleSetOf policies) (succeeded outcomes))\<rparr>,
      h2)"
    by (intro ApplyACLRules_listed [of m h endpoints h1 marshal rules policies outcomes h2]) simp_all
  then show "ApplyACLRules m marshal policyKey rules h =
        (if length (filter (\<lambda>(e, r). r \<noteq> None) outcomes) = 0 then None
         else Some (ApplyAggregate (length (filter (\<lambda>(e, r). r \<noteq> None) outcomes))
                      (length endpoints) (failures outcomes)),
         m\<lparr>appliedPolicies :=
             (appliedPolicies m)(policyKey \<mapsto> map (ruleSetOf policies) (succeeded outcomes))\<rparr>,
         h2)"
    by (simp only: failures_Nil_iff length_failures)
next
  assume a: "appliedPolicies m policyKey = Some ruleSets \<and>
    removeTrace (client m) ruleSets h = (removals, h3)"
  show "map fst removals = ruleSets"
    using removeTrace_ruleSets [of "client m" ruleSets h] a by simp
  from a have "RemoveACLRules m policyKey h =
     (if removeFailures removals = [] then None
      else Some (RemoveAggregate (length (removeFailures removals)) (length ruleSets) (removeFailures removals)),
      m\<lparr>appliedPolicies := (appliedPolicies m)(policyKey := None)\<rparr>,
      h3)"
    by (intro RemoveACLRules_tracked [of m policyKey ruleSets h removals h3]) simp_all
  then show "RemoveACLRules m policyKey h =
        (if length (filter (\<lambda>(s, r). r \<noteq> None) removals) = 0 then None
         else Some (RemoveAggregate (length (filter (\<lambda>(s, r). r \<noteq> None) removals))
                      (length ruleSets) (removeFailures removals)),
         m\<lparr>appliedPolicies := (appliedPolicies m)(policyKey := None)\<rparr>,
         h3)"
    by (simp only: removeFailures_Nil_iff length_removeFailures)
qed


lemmas host_defs =
  fakeClient_def host0_def host1_def host3_def host_broken_def host_unlisted_def
  manager_new_def manager_old_def manager_tracked_def NewManager_def old_ruleSet_def
  ep1_def ep2_def ep3_def

lemma build_http: "buildPolicies fake_marshal [allow_http] = Inr http_policies"
  by (simp add: buildPolicies_def fake_marshal_def allow_http_def http_policies_def)

lemma build_bad:
  "buildPolicies fake_marshal [allow_http, bad_rule] =
     Inl (MarshalFailed 1 (HostError ''unsupported value''))"
  by (simp add: buildPolicies_def fake_marshal_def allow_http_def bad_rule_def)

lemma list_host3:
  "ListEndpoints (client manager_old) host3 =
     (Inr [ep1, ep2, ep3], host3\<lparr>calls := [CallListEndpoints]\<rparr>)"
  by (simp add: host_defs)

lemma trace_host3:
  "applyTrace (client manager_old) http_policies [ep1, ep2, ep3] (host3\<lparr>calls := [CallListEndpoints]\<rparr>) =
     ([(ep1, None), (ep2, Some (HostError ''apply failed'')), (ep3, None)],
      host3\<lparr>calls := [CallListEndpoints,
                        CallApply ''ep-1'' RequestTypeAdd http_policies,
                        CallApply ''ep-2'' RequestTypeAdd http_policies,
                        CallApply ''ep-3'' RequestTypeAdd http_policies]\<rparr>)"
  by (simp add: host_defs)

text \<open>
  The theorem of C2 at \<open>host3\<close> and \<open>manager_old\<close>: three endpoints, the install fails on
  \<open>ep-2\<close>, and the old entry for \<open>ep-9\<close> is replaced by the rule sets of \<open>ep-1\<close> and \<open>ep-3\<close>.
\<close>

theorem C2_apply_tracks_successes_witness:
  "ListEndpoints (client manager_old) host3 =
     (Inr [ep1, ep2, ep3], host3\<lparr>calls := [CallListEndpoints]\<rparr>) \<and>
   [ep1, ep2, ep3] \<noteq> [] \<and>
   buildPolicies fake_marshal [allow_http] = Inr http_policies \<and>
   fst (ApplyACLRules manager_old fake_marshal ''default/web'' [allow_http] host3) \<noteq> None \<and>
   appliedPolicies (fst (snd (ApplyACLRules manager_old fake_marshal ''default/web'' [allow_http] host3)))
     ''default/web'' = Some [ruleSetOf http_policies ep1, ruleSetOf http_policies ep3] \<and>
   calls (snd (snd (ApplyACLRules manager_old fake_marshal ''default/web'' [allow_http] host3))) =
     [CallListEndpoints,
      CallApply ''ep-1'' RequestTypeAdd http_policies,
      CallApply ''ep-2'' RequestTypeAdd http_policies,
      CallApply ''ep-3'' RequestTypeAdd http_policies]"
proof -
  have n: "[ep1, ep2, ep3] \<noteq> []" by simp
  show ?thesis
    using C2_apply_tracks_successes [OF list_host3 n build_http trace_host3, of "''default/web''"]
      list_host3 build_http
    by simp
qed


lemma list_broken:
  "ListEndpoints (client manager_old) host_broken =
     (Inr [ep1], host_broken\<lparr>calls := [CallListEndpoints]\<rparr>)"
  by (simp add: host_defs)

lemma trace_broken:
  "applyTrace (client manager_old) http_policies [ep1] (host_broken\<lparr>calls := [CallListEndpoints]\<rparr>) =
     ([(ep1, Some (HostError ''apply failed''))],
      host_broken\<lparr>calls := [CallListEndpoints, CallApply ''ep-1'' RequestTypeAdd http_policies]\<rparr>)"
  by (simp add: host_defs)

text \<open>
  The theorem of C9 at \<open>host_broken\<close> and \<open>manager_old\<close>: the one install fails and the
  entry \<open>[old_ruleSet]\<close> becomes the empty list.
\<close>

theorem C9_all_failed_tracks_empty_witness:
  "ListEndpoints (client manager_old) host_broken =
     (Inr [ep1], host_broken\<lparr>calls := [CallListEndpoints]\<rparr>) \<and>
   [ep1] \<noteq> [] \<and>
   buildPolicies fake_marshal [allow_http] = Inr http_policies \<and>
   applyTrace (client manager_old) http_policies [ep1] (host_broken\<lparr>calls := [CallListEndpoints]\<rparr>) =
     ([(ep1, Some (HostError ''apply failed''))],
      host_broken\<lparr>calls := [CallListEndpoints, CallApply ''ep-1'' RequestTypeAdd http_policies]\<rparr>) \<and>
   GetAppliedPolicies manager_old ''default/web'' = ([old_ruleSet], True) \<and>
   GetAppliedPolicies
     (fst (snd (ApplyACLRules manager_old fake_marshal ''default/web'' [allow_http] host_broken)))
     ''default/web'' = ([], True) \<and>
   ''default/web'' \<in> ListTrackedPolicies
     (fst (snd (ApplyACLRules manager_old fake_marshal ''default/web'' [allow_http] host_broken))) \<and>
   fst (ApplyACLRules manager_old fake_marshal ''default/web'' [allow_http] host_broken) =
     Some (ApplyAggregate 1 1 [EndpointFailed ''ep-1'' (HostError ''apply failed'')])"
proof -
  have n: "[ep1] \<noteq> []" by simp
  have a: "\<forall>(e, r)\<in>set [(ep1, Some (HostError ''apply failed''))]. r \<noteq> None" by simp
  have g: "GetAppliedPolicies manager_old ''default/web'' = ([old_ruleSet], True)"
    by (simp add: GetAppliedPolicies_def manager_old_def)
  have f: "failures [(ep1, Some (HostError ''apply failed''))] =
      [EndpointFailed ''ep-1'' (HostError ''apply failed'')]"
    by (simp add: failures_def ep1_def)
  show ?thesis
    using C9_all_failed_tracks_empty [OF list_broken n build_http trace_broken a, of "''default/web''"]
      list_broken build_http g trace_broken
    by (simp add: f)
qed

lemma list_host0:
  "ListEndpoints (client manager_new) host0 = (Inr [], host0\<lparr>calls := [CallListEndpoints]\<rparr>)"
  by (simp add: host_defs)

text \<open>
  A new manager and the host without endpoints, the input of
  \<open>TestApplyACLRules_NoEndpoints\<close>: the call succeeds and the key is not found, where the
  test expects it found.
\<close>

lemma no_endpoints_new_manager:
  "ListEndpoints (client manager_new) host0 = (Inr [], host0\<lparr>calls := [CallListEndpoints]\<rparr>) \<and>
   appliedPolicies manager_new ''default/web'' = None \<and>
   ApplyACLRules manager_new fake_marshal ''default/web'' [allow_http] host0 =
     (None, manager_new, host0\<lparr>calls := [CallListEndpoints]\<rparr>) \<and>
   GetAppliedPolicies
     (fst (snd (ApplyACLRules manager_new fake_marshal ''default/web'' [allow_http] host0)))
     ''default/web'' = ([], False)"
proof -
  have a: "appliedPolicies manager_new ''default/web'' = None"
    by (simp add: manager_new_def NewManager_def)
  show ?thesis
    using ApplyACLRules_no_endpoints [OF list_host0, of fake_marshal "''default/web''" "[allow_http]"]
      list_host0 a
    by (simp add: GetAppliedPolicies_def)
qed

lemma apply_host1:
  "ApplyACLRules manager_new fake_marshal ''default/web'' [allow_http] host1 =
     (None,
      \<lparr>client = fakeClient, appliedPolicies = [''default/web'' \<mapsto> [ruleSetOf http_policies ep1]]\<rparr>,
      host1\<lparr>calls := [CallListEndpoints, CallApply ''ep-1'' RequestTypeAdd http_policies]\<rparr>)"
  by (simp add: ApplyACLRules_def build_http host_defs ruleSetOf_def)

text \<open>
  A key that is already tracked: after a successful apply on the host with one endpoint,
  an apply of the same key against the host with zero endpoints returns success, and
  \<open>GetAppliedPolicies\<close> still reports the key found, with the rule set of the first apply.
\<close>

lemma no_endpoints_tracked_key:
  "fst (ApplyACLRules manager_new fake_marshal ''default/web'' [allow_http] host1) = None \<and>
   ListEndpoints fakeClient host0 = (Inr [], host0\<lparr>calls := [CallListEndpoints]\<rparr>) \<and>
   fst (ApplyACLRules
          (fst (snd (ApplyACLRules manager_new fake_marshal ''default/web'' [allow_http] host1)))
          fake_marshal ''default/web'' [allow_http] host0) = None \<and>
   GetAppliedPolicies
     (fst (snd (ApplyACLRules
        (fst (snd (ApplyACLRules manager_new fake_marshal ''default/web'' [allow_http] host1)))
        fake_marshal ''default/web'' [allow_http] host0)))
     ''default/web'' = ([ruleSetOf http_policies ep1], True)"
  by (simp add: apply_host1) (simp add: ApplyACLRules_def GetAppliedPolicies_def fakeClient_def host0_def)

text \<open>
  Claim C4 as stated fails when every per-endpoint operation fails: on \<open>host_broken\<close> the
  only install fails, and \<open>ApplyACLRules\<close> returns the aggregate error all the same.
\<close>

theorem C4_all_failed_counterexample:
  "applyTrace (client manager_new) http_policies [ep1] (host_broken\<lparr>calls := [CallListEndpoints]\<rparr>) =
     ([(ep1, Some (HostError ''apply failed''))],
      host_broken\<lparr>calls := [CallListEndpoints, CallApply ''ep-1'' RequestTypeAdd http_policies]\<rparr>) \<and>
   ApplyACLRules manager_new fake_marshal ''default/web'' [allow_http] host_broken =
     (Some (ApplyAggregate 1 1 [EndpointFailed ''ep-1'' (HostError ''apply failed'')]),
      manager_new\<lparr>appliedPolicies := [''default/web'' \<mapsto> []]\<rparr>,
      host_broken\<lparr>calls := [CallListEndpoints, CallApply ''ep-1'' RequestTypeAdd http_policies]\<rparr>)"
  by (simp add: ApplyACLRules_def build_http host_defs)


lemma trace_remove_host3:
  "removeTrace (client manager_tracked)
     [ruleSetOf http_policies ep1, ruleSetOf http_policies ep3, old_ruleSet] host3 =
     ([(ruleSetOf http_policies ep1, None),
       (ruleSetOf http_policies ep3, Some (EndpointFailed ''ep-3'' (HostError ''remove failed''))),
       (old_ruleSet, Some (GetEndpointFailed ''ep-9'' (HostError ''endpoint not found'')))],
      host3\<lparr>calls := [CallGetEndpointByID ''ep-1'',
                        CallRemove ''ep-1'' RequestTypeRemove http_policies,
                        CallGetEndpointByID ''ep-3'',
                        CallRemove ''ep-3'' RequestTypeRemove http_policies,
                        CallGetEndpointByID ''ep-9'']\<rparr>)"
  by (simp add: host_defs removeOne_def ruleSetOf_def)

text \<open>
  The theorem of C4 at \<open>host3\<close>: an apply where one install of three fails, and a removal
  of three rule sets where one removal fails and one endpoint is not found.
\<close>

theorem C4_aggregate_error_iff_any_failure_witness:
  "ListEndpoints (client manager_old) host3 =
     (Inr [ep1, ep2, ep3], host3\<lparr>calls := [CallListEndpoints]\<rparr>) \<and>
   [ep1, ep2, ep3] \<noteq> [] \<and>
   buildPolicies fake_marshal [allow_http] = Inr http_policies \<and>
   ApplyACLRules manager_old fake_marshal ''default/web'' [allow_http] host3 =
     (Some (ApplyAggregate 1 3 [EndpointFailed ''ep-2'' (HostError ''apply failed'')]),
      manager_old\<lparr>appliedPolicies :=
        (appliedPolicies manager_old)
          (''default/web'' \<mapsto> [ruleSetOf http_policies ep1, ruleSetOf http_policies ep3])\<rparr>,
      host3\<lparr>calls := [CallListEndpoints,
                        CallApply ''ep-1'' RequestTypeAdd http_policies,
                        CallApply ''ep-2'' RequestTypeAdd http_policies,
                        CallApply ''ep-3'' RequestTypeAdd http_policies]\<rparr>) \<and>
   appliedPolicies manager_tracked ''default/web'' =
     Some [ruleSetOf http_policies ep1, ruleSetOf http_policies ep3, old_ruleSet] \<and>
   RemoveACLRules manager_tracked ''default/web'' host3 =
     (Some (RemoveAggregate 2 3
        [EndpointFailed ''ep-3'' (HostError ''remove failed''),
         GetEndpointFailed ''ep-9'' (HostError ''endpoint not found'')]),
      manager_tracked\<lparr>appliedPolicies := (appliedPolicies manager_tracked)(''default/web'' := None)\<rparr>,
      host3\<lparr>calls := [CallGetEndpointByID ''ep-1'',
                        CallRemove ''ep-1'' RequestTypeRemove http_policies,
                        CallGetEndpointByID ''ep-3'',
                        CallRemove ''ep-3'' RequestTypeRemove http_policies,
                        CallGetEndpointByID ''ep-9'']\<rparr>)"
proof -
  have t: "appliedPolicies manager_tracked ''default/web'' =
      Some [ruleSetOf http_policies ep1, ruleSetOf http_policies ep3, old_ruleSet]"
    by (simp add: manager_tracked_def)
  have f: "failures [(ep1, None), (ep2, Some (HostError ''apply failed'')), (ep3, None)] =
      [EndpointFailed ''ep-2'' (HostError ''apply failed'')]"
    by (simp add: failures_def ep2_def)
  have s: "succeeded [(ep1, None), (ep2, Some (HostError ''apply failed'')), (ep3, None)] = [ep1, ep3]"
    by (simp add: succeeded_def)
  have r: "removeFailures
      [(ruleSetOf http_policies ep1, None),
       (ruleSetOf http_policies ep3, Some (EndpointFailed ''ep-3'' (HostError ''remove failed''))),
       (old_ruleSet, Some (GetEndpointFailed ''ep-9'' (HostError ''endpoint not found'')))] =
      [EndpointFailed ''ep-3'' (HostError ''remove failed''),
       GetEndpointFailed ''ep-9'' (HostError ''endpoint not found'')]"
    by (simp add: removeFailures_def)
  show ?thesis
    using C4_aggregate_error_iff_any_failure
      [where m = manager_old and h = host3 and endpoints = "[ep1, ep2, ep3]"
         and ?h1.0 = "host3\<lparr>calls := [CallListEndpoints]\<rparr>" and marshal = fake_marshal
         and rules = "[allow_http]" and policies = http_policies
         and outcomes = "[(ep1, None), (ep2, Some (HostError ''apply failed'')), (ep3, None)]"
         and ?h2.0 = "host3\<lparr>calls := [CallListEndpoints,
                        CallApply ''ep-1'' RequestTypeAdd http_policies,
                        CallApply ''ep-2'' RequestTypeAdd http_policies,
                        CallApply ''ep-3'' RequestTypeAdd http_policies]\<rparr>"
         and policyKey = "''default/web''"]
      C4_aggregate_error_iff_any_failure
      [where m = manager_tracked and h = host3 and policyKey = "''default/web''"
         and ruleSets = "[ruleSetOf http_policies ep1, ruleSetOf http_policies ep3, old_ruleSet]"
         and removals = "[(ruleSetOf http_policies ep1, None),
           (ruleSetOf http_policies ep3, Some (EndpointFailed ''ep-3'' (HostError ''remove failed''))),
           (old_ruleSet, Some (GetEndpointFailed ''ep-9'' (HostError ''endpoint not found'')))]"
         and ?h3.0 = "host3\<lparr>calls := [CallGetEndpointByID ''ep-1'',
                        CallRemove ''ep-1'' RequestTypeRemove http_policies,
                        CallGetEndpointByID ''ep-3'',
                        CallRemove ''ep-3'' RequestTypeRemove http_policies,
                        CallGetEndpointByID ''ep-9'']\<rparr>"]
      list_host3 build_http trace_host3 trace_remove_host3 t
    by (simp add: f s r)
qed


lemma list_unlisted:
  "ListEndpoints (client manager_old) host_unlisted =
     (Inl (HostError ''list failed''), host_unlisted\<lparr>calls := [CallListEndpoints]\<rparr>)"
  by (simp add: host_defs)

text \<open>
  The theorem of C5 at the host that cannot list its endpoints, and at \<open>host3\<close> with a
  second rule that does not encode.
\<close>

theorem C5_fatal_errors_change_nothing_witness:
  "ListEndpoints (client manager_old) host_unlisted =
     (Inl (HostError ''list failed''), host_unlisted\<lparr>calls := [CallListEndpoints]\<rparr>) \<and>
   ApplyACLRules manager_old fake_marshal ''default/web'' [allow_http] host_unlisted =
     (Some (ListEndpointsFailed (HostError ''list failed'')), manager_old,
      host_unlisted\<lparr>calls := [CallListEndpoints]\<rparr>) \<and>
   ListEndpoints (client manager_old) host3 =
     (Inr [ep1, ep2, ep3], host3\<lparr>calls := [CallListEndpoints]\<rparr>) \<and>
   [ep1, ep2, ep3] \<noteq> [] \<and>
   isl (fake_marshal (aclSettingOf bad_rule)) \<and>
   ApplyACLRules manager_old fake_marshal ''default/web'' [allow_http, bad_rule] host3 =
     (Some (BuildPoliciesFailed (MarshalFailed 1 (HostError ''unsupported value''))), manager_old,
      host3\<lparr>calls := [CallListEndpoints]\<rparr>)"
proof -
  have b: "\<exists>rule\<in>set [allow_http, bad_rule]. isl (fake_marshal (aclSettingOf rule))"
    by (simp add: fake_marshal_def aclSettingOf_def bad_rule_def)
  show ?thesis
    using C5_fatal_errors_change_nothing
      [where m = manager_old and h = host_unlisted and err = "HostError ''list failed''"
         and ?h1.0 = "host_unlisted\<lparr>calls := [CallListEndpoints]\<rparr>" and marshal = fake_marshal
         and policyKey = "''default/web''" and rules = "[allow_http]"]
      C5_fatal_errors_change_nothing
      [where m = manager_old and h = host3 and endpoints = "[ep1, ep2, ep3]"
         and ?h1.0 = "host3\<lparr>calls := [CallListEndpoints]\<rparr>" and marshal = fake_marshal
         and policyKey = "''default/web''" and rules = "[allow_http, bad_rule]"]
      list_unlisted list_host3 b build_bad
    by (auto simp: fake_marshal_def aclSettingOf_def bad_rule_def)
qed

lemma apply_host3_new:
  "ApplyACLRules manager_new fake_marshal ''default/web'' [allow_http] host3 =
     (Some (ApplyAggregate 1 3 [EndpointFailed ''ep-2'' (HostError ''apply failed'')]),
      \<lparr>client = fakeClient,
       appliedPolicies =
         [''default/web'' \<mapsto> [ruleSetOf http_policies ep1, ruleSetOf http_policies ep3]]\<rparr>,
      host3\<lparr>calls := [CallListEndpoints,
                        CallApply ''ep-1'' RequestTypeAdd http_policies,
                        CallApply ''ep-2'' RequestTypeAdd http_policies,
                        CallApply ''ep-3'' RequestTypeAdd http_policies]\<rparr>)"
  by (simp add: ApplyACLRules_def build_http host_defs ruleSetOf_def)

text \<open>
  The theorem of C3 at \<open>host3\<close>: the apply tracks \<open>ep-1\<close> and \<open>ep-3\<close>, the removal fails on
  \<open>ep-3\<close> and returns an error, and the key is not found afterwards.
\<close>

theorem C3_apply_then_remove_untracked_witness:
  "GetAppliedPolicies
     (fst (snd (ApplyACLRules manager_new fake_marshal ''default/web'' [allow_http] host3)))
     ''default/web'' = ([ruleSetOf http_policies ep1, ruleSetOf http_policies ep3], True) \<and>
   fst (RemoveACLRules
          (fst (snd (ApplyACLRules manager_new fake_marshal ''default/web'' [allow_http] host3)))
          ''default/web''
          (snd (snd (ApplyACLRules manager_new fake_marshal ''default/web'' [allow_http] host3)))) =
     Some (RemoveAggregate 1 2 [EndpointFailed ''ep-3'' (HostError ''remove failed'')]) \<and>
   GetAppliedPolicies
     (fst (snd (RemoveACLRules
        (fst (snd (ApplyACLRules manager_new fake_marshal ''default/web'' [allow_http] host3)))
        ''default/web''
        (snd (snd (ApplyACLRules manager_new fake_marshal ''default/web'' [allow_http] host3))))))
     ''default/web'' = ([], False)"
proof -
  have r: "fst (RemoveACLRules
      \<lparr>client = fakeClient,
       appliedPolicies =
         [''default/web'' \<mapsto> [ruleSetOf http_policies ep1, ruleSetOf http_policies ep3]]\<rparr>
      ''default/web''
      (host3\<lparr>calls := [CallListEndpoints,
                        CallApply ''ep-1'' RequestTypeAdd http_policies,
                        CallApply ''ep-2'' RequestTypeAdd http_policies,
                        CallApply ''ep-3'' RequestTypeAdd http_policies]\<rparr>)) =
     Some (RemoveAggregate 1 2 [EndpointFailed ''ep-3'' (HostError ''remove failed'')])"
    by (simp add: RemoveACLRules_def host_defs ruleSetOf_def)
  show ?thesis
    using C3_apply_then_remove_untracked
      [where m = manager_new and marshal = fake_marshal and policyKey = "''default/web''"
         and rules = "[allow_http]" and h = host3]
    by (simp add: apply_host3_new r GetAppliedPolicies_def split: prod.splits)
qed

end
